theory Spec2Isabelle
  imports Main "HOL-Library.Word"
begin

section \<open>Evidence registry (\<^verbatim>\<open>forens_core/evidence.py\<close>)\<close>

text \<open>
  The module keeps two globals: the dictionary \<^verbatim>\<open>_evidence_db\<close> from identifier to
  a two-key dictionary \<^verbatim>\<open>{"path": ..., "open": ...}\<close>, and the integer counter
  \<^verbatim>\<open>_next_id\<close>, initially 1. Both are modelled as one explicit state record that
  every operation takes and returns. Python integers are unbounded, hence \<open>int\<close>.
  The path is whatever object the caller hands in, hence a type parameter.
\<close>

record 'p evidence_record =
  path :: 'p
  is_open :: bool

record 'p registry =
  evidence_db :: "string \<rightharpoonup> 'p evidence_record"
  next_id :: int

definition init_registry :: "'p registry" where
  "init_registry = \<lparr>evidence_db = Map.empty, next_id = 1\<rparr>"

subsection \<open>The format specification \<^verbatim>\<open>03d\<close>\<close>

definition digit_char :: "nat \<Rightarrow> char" where
  "digit_char d = char_of (48 + d)"

fun dec_digits :: "nat \<Rightarrow> string" where
  "dec_digits n = (if n < 10 then [digit_char n] else dec_digits (n div 10) @ [digit_char (n mod 10)])"

declare dec_digits.simps [simp del]

definition zero_pad :: "nat \<Rightarrow> string \<Rightarrow> string" where
  "zero_pad w s = replicate (w - length s) (CHR ''0'') @ s"

text \<open>
  \<^verbatim>\<open>format(n, "03d")\<close>: decimal digits, padded with zeros to a total width of three;
  the padding is sign-aware, so a minus sign counts towards the width and precedes the zeros.
\<close>

definition format_03d :: "int \<Rightarrow> string" where
  "format_03d n =
     (if n < 0 then CHR ''-'' # zero_pad 2 (dec_digits (nat (- n)))
      else zero_pad 3 (dec_digits (nat n)))"

subsection \<open>The three operations\<close>

definition add_evidence :: "'p \<Rightarrow> 'p registry \<Rightarrow> string \<times> 'p registry" where
  "add_evidence p st =
     (let eid = ''E'' @ format_03d (next_id st)
      in (eid, st\<lparr>evidence_db := (evidence_db st)(eid \<mapsto> \<lparr>path = p, is_open = True\<rparr>),
                  next_id := next_id st + 1\<rparr>))"

definition resolve_evidence :: "string \<Rightarrow> 'p registry \<Rightarrow> 'p evidence_record option" where
  "resolve_evidence eid st = evidence_db st eid"

definition close_evidence :: "string \<Rightarrow> 'p registry \<Rightarrow> bool \<times> 'p registry" where
  "close_evidence eid st =
     (case evidence_db st eid of
        Some r \<Rightarrow> (True, st\<lparr>evidence_db := (evidence_db st)(eid \<mapsto> r\<lparr>is_open := False\<rparr>)\<rparr>)
      | None \<Rightarrow> (False, st))"

subsection \<open>Histories of calls within one process\<close>

text \<open>
  A process starts in \<open>init_registry\<close> and then performs registrations and closes in any
  order (\<open>resolve_evidence\<close> does not change the state). \<open>run_calls\<close> replays such a
  history and collects, in order, the identifiers that the registrations returned.
\<close>

datatype 'p call = Add 'p | Close string

fun exec_call :: "string list \<times> 'p registry \<Rightarrow> 'p call \<Rightarrow> string list \<times> 'p registry" where
  "exec_call (ids, st) (Add p) = (ids @ [fst (add_evidence p st)], snd (add_evidence p st))"
| "exec_call (ids, st) (Close eid) = (ids, snd (close_evidence eid st))"

definition run_calls :: "'p call list \<Rightarrow> string list \<times> 'p registry" where
  "run_calls cs = foldl exec_call ([], init_registry) cs"

subsection \<open>Reading an identifier back\<close>

definition is_digit :: "char \<Rightarrow> bool" where
  "is_digit c = (48 \<le> (of_char c :: nat) \<and> (of_char c :: nat) \<le> 57)"

definition digit_val :: "char \<Rightarrow> nat" where
  "digit_val c = of_char c - 48"

definition dec_value :: "string \<Rightarrow> nat" where
  "dec_value s = foldl (\<lambda>a c. 10 * a + digit_val c) 0 s"

text \<open>The regular expression \<^verbatim>\<open>E\d{3,}\<close>, matched against the whole string.\<close>

fun matches_eid_pattern :: "string \<Rightarrow> bool" where
  "matches_eid_pattern [] = False"
| "matches_eid_pattern (c # ds) = (c = CHR ''E'' \<and> 3 \<le> length ds \<and> list_all is_digit ds)"


definition eid_of :: "nat \<Rightarrow> string" where
  \<comment> \<open>the identifier handed out by the registration number \<open>k\<close>, counted from 0\<close>
  "eid_of k = ''E'' @ format_03d (int k + 1)"

fun added_paths :: "'p call list \<Rightarrow> 'p list" where
  \<comment> \<open>the paths registered by a history, in order\<close>
  "added_paths [] = []"
| "added_paths (Add p # cs) = p # added_paths cs"
| "added_paths (Close e # cs) = added_paths cs"

section \<open>Web application (\<^verbatim>\<open>webapp/app.py\<close>)\<close>

subsection \<open>Python values, exceptions\<close>

type_synonym byte = "8 word"

text \<open>
  The dynamically typed values that cross the interfaces: JSON request bodies, and the
  dictionaries that the image handlers return. A dictionary literal is an association list
  in the order of the literal.
\<close>

datatype py_val =
    PNone
  | PBool bool
  | PInt int
  | PStr string
  | PList "py_val list"
  | PDict "(string \<times> py_val) list"

type_synonym py_dict = "(string \<times> py_val) list"

text \<open>
  An exception is its class and its message \<^verbatim>\<open>str(e)\<close>. \<open>ImportError\<close> stands for
  that class and its subclasses, \<open>OtherException\<close> for every other subclass of
  \<^verbatim>\<open>Exception\<close> not listed, \<open>NonException\<close> for a \<^verbatim>\<open>BaseException\<close> that is not an
  \<^verbatim>\<open>Exception\<close> (it passes an \<^verbatim>\<open>except Exception\<close> clause), \<open>HTTPException\<close> for the
  abort that Flask raises itself. The message is only ever read from a failure of the
  \<^verbatim>\<open>ImageHandler\<close> constructor; exceptions raised by the builtins below carry the empty
  message.
\<close>

datatype exc_class =
  ImportError | ValueError | TypeError | AttributeError | HTTPException | OtherException | NonException

datatype py_exception = Raise exc_class string

fun exc_str :: "py_exception \<Rightarrow> string" where
  "exc_str (Raise c msg) = msg"

fun is_ImportError :: "py_exception \<Rightarrow> bool" where
  "is_ImportError (Raise c msg) = (c = ImportError)"

fun is_Exception :: "py_exception \<Rightarrow> bool" where
  "is_Exception (Raise c msg) = (c \<noteq> NonException)"

subsection \<open>Image handlers\<close>

text \<open>
  \<^verbatim>\<open>image_handlers\<close> holds objects of two classes that are used through the same method
  names. The class \<^verbatim>\<open>ImageHandler\<close> comes from \<^verbatim>\<open>managers.evidence_utils\<close>; the
  views only call its methods, so a handler is the record of its attributes and methods,
  every method returning its value or the exception it raises.
\<close>

record handler =
  image_path :: string
  is_wiped_image :: bool
  get_partitions :: "py_exception + (int \<times> string \<times> int \<times> int) list"
  is_wiped :: "py_exception + bool"
  get_directory_contents :: "int \<Rightarrow> int option \<Rightarrow> py_exception + py_dict list"
  get_file_content :: "int \<Rightarrow> int \<Rightarrow> py_exception + (byte list option \<times> py_dict option)"
  detect_file_type :: "byte list \<Rightarrow> py_exception + py_dict"
  carve_files_by_type :: "py_val \<Rightarrow> py_exception + py_dict list"
  search_files :: "string \<Rightarrow> py_exception + py_dict list"

definition bytes_of :: "string \<Rightarrow> byte list" where
  \<comment> \<open>a bytes literal \<^verbatim>\<open>b"..."\<close>\<close>
  "bytes_of s = map of_char s"

definition DemoImageHandler_get_partitions :: "(int \<times> string \<times> int \<times> int) list" where
  "DemoImageHandler_get_partitions = [(1, ''Demo Partition'', 2048, 1000000)]"

definition DemoImageHandler_get_directory_contents :: "int \<Rightarrow> int option \<Rightarrow> py_dict list" where
  "DemoImageHandler_get_directory_contents start_offset inode_number =
     [ [ (''name'', PStr ''demo_file.txt''),
         (''is_directory'', PBool False),
         (''inode_number'', PInt 12345),
         (''size'', PStr ''1.2 KB''),
         (''accessed'', PStr ''2024-01-01 12:00:00 UTC''),
         (''modified'', PStr ''2024-01-01 12:00:00 UTC''),
         (''created'', PStr ''2024-01-01 12:00:00 UTC''),
         (''changed'', PStr ''2024-01-01 12:00:00 UTC'') ],
       [ (''name'', PStr ''demo_folder''),
         (''is_directory'', PBool True),
         (''inode_number'', PInt 12346),
         (''size'', PStr ''0 B''),
         (''accessed'', PStr ''2024-01-01 12:00:00 UTC''),
         (''modified'', PStr ''2024-01-01 12:00:00 UTC''),
         (''created'', PStr ''2024-01-01 12:00:00 UTC''),
         (''changed'', PStr ''2024-01-01 12:00:00 UTC'') ] ]"

definition DemoImageHandler_get_file_content :: "int \<Rightarrow> int \<Rightarrow> byte list option \<times> py_dict option" where
  "DemoImageHandler_get_file_content inode_number offset =
     (Some (bytes_of ''This is a demo file content for testing purposes.''), None)"

definition DemoImageHandler_detect_file_type :: "byte list \<Rightarrow> py_dict" where
  "DemoImageHandler_detect_file_type content =
     [(''type'', PStr ''text''), (''extension'', PStr ''txt''), (''description'', PStr ''Text File'')]"

definition DemoImageHandler_carve_files_by_type :: "py_val \<Rightarrow> py_dict list" where
  "DemoImageHandler_carve_files_by_type file_type =
     [ [ (''name'', PStr ''demo_carved_file.txt''),
         (''path'', PStr ''/demo_carved_file.txt''),
         (''size'', PStr ''512 B''),
         (''inode'', PInt 12347),
         (''type'', PStr ''text''),
         (''extension'', PStr ''txt''),
         (''description'', PStr ''Text File''),
         (''accessed'', PStr ''2024-01-01 12:00:00 UTC''),
         (''modified'', PStr ''2024-01-01 12:00:00 UTC''),
         (''created'', PStr ''2024-01-01 12:00:00 UTC''),
         (''changed'', PStr ''2024-01-01 12:00:00 UTC'') ] ]"

definition DemoImageHandler_search_files :: "string \<Rightarrow> py_dict list" where
  "DemoImageHandler_search_files query =
     [ [ (''name'', PStr (''demo_search_'' @ query @ ''.txt'')),
         (''path'', PStr (''/demo_search_'' @ query @ ''.txt'')),
         (''size'', PStr ''256 B''),
         (''accessed'', PStr ''2024-01-01 12:00:00 UTC''),
         (''modified'', PStr ''2024-01-01 12:00:00 UTC''),
         (''created'', PStr ''2024-01-01 12:00:00 UTC''),
         (''changed'', PStr ''2024-01-01 12:00:00 UTC''),
         (''inode_item'', PStr ''12348'') ] ]"

definition DemoImageHandler :: "string \<Rightarrow> handler" where
  "DemoImageHandler p =
     \<lparr> image_path = p,
       is_wiped_image = False,
       get_partitions = Inr DemoImageHandler_get_partitions,
       is_wiped = Inr False,
       get_directory_contents = (\<lambda>start_offset inode_number.
          Inr (DemoImageHandler_get_directory_contents start_offset inode_number)),
       get_file_content = (\<lambda>inode_number offset.
          Inr (DemoImageHandler_get_file_content inode_number offset)),
       detect_file_type = (\<lambda>content. Inr (DemoImageHandler_detect_file_type content)),
       carve_files_by_type = (\<lambda>file_type. Inr (DemoImageHandler_carve_files_by_type file_type)),
       search_files = (\<lambda>query. Inr (DemoImageHandler_search_files query)) \<rparr>"

subsection \<open>Path functions of the standard library (POSIX)\<close>

fun find_last :: "char \<Rightarrow> string \<Rightarrow> nat \<Rightarrow> int \<Rightarrow> int" where
  "find_last c [] i r = r"
| "find_last c (x # xs) i r = find_last c xs (Suc i) (if x = c then int i else r)"

definition rfind :: "string \<Rightarrow> char \<Rightarrow> int" where
  \<comment> \<open>\<^verbatim>\<open>p.rfind(c)\<close>: the highest index of \<open>c\<close>, or -1\<close>
  "rfind p c = find_last c p 0 (- 1)"

text \<open>
  The loop of \<^verbatim>\<open>genericpath._splitext\<close> that skips the leading dots of the last
  component: it answers whether some character from \<open>i\<close> up to the last dot is not a dot.
\<close>

function has_non_dot :: "string \<Rightarrow> nat \<Rightarrow> nat \<Rightarrow> bool" where
  "has_non_dot p i d =
     (if i < d then (if p ! i \<noteq> CHR ''.'' then True else has_non_dot p (Suc i) d) else False)"
  by pat_completeness auto
termination
  by (relation "measure (\<lambda>(p, i, d). d - i)") auto

declare has_non_dot.simps [simp del]

definition splitext :: "string \<Rightarrow> string \<times> string" where
  "splitext p =
     (let sepIndex = rfind p (CHR ''/'');
          dotIndex = rfind p (CHR ''.'')
      in if dotIndex > sepIndex \<and> has_non_dot p (nat (sepIndex + 1)) (nat dotIndex)
         then (take (nat dotIndex) p, drop (nat dotIndex) p)
         else (p, []))"

definition os_path_join :: "string \<Rightarrow> string \<Rightarrow> string" where
  "os_path_join a b =
     (if b \<noteq> [] \<and> hd b = CHR ''/'' then b
      else if a = [] \<or> last a = CHR ''/'' then a @ b
      else a @ ''/'' @ b)"

definition os_path_basename :: "string \<Rightarrow> string" where
  "os_path_basename p = drop (nat (rfind p (CHR ''/'') + 1)) p"

subsection \<open>The extension filter\<close>

definition ALLOWED_EXTENSIONS :: "string set" where
  "ALLOWED_EXTENSIONS =
     {''.e01'', ''.E01'', ''.s01'', ''.S01'', ''.l01'', ''.L01'', ''.raw'', ''.RAW'',
      ''.img'', ''.IMG'', ''.dd'', ''.DD'', ''.iso'', ''.ISO'', ''.ad1'', ''.AD1'',
      ''.001'', ''.ex01'', ''.dmg'', ''.sparse'', ''.sparseimage''}"

definition allowed_file :: "string \<Rightarrow> bool" where
  "allowed_file filename = (snd (splitext filename) \<in> ALLOWED_EXTENSIONS)"


subsection \<open>The builtin \<^verbatim>\<open>int\<close> on a string\<close>

text \<open>
  A \<^verbatim>\<open>str\<close> is the list of its code points, and \<open>char\<close> holds the code points below
  256. Among these the decimal digits are 0 to 9 only. At both ends of its argument
  \<^verbatim>\<open>int\<close> skips the characters 9 to 13 and 32, and the two further white-space characters
  U+0085 and U+00A0 (which it turns into spaces before it parses); the separators U+001C to
  U+001F are not skipped.
\<close>

definition is_int_space :: "char \<Rightarrow> bool" where
  "is_int_space c = ((of_char c :: nat) \<in> {9, 10, 11, 12, 13, 32, 133, 160})"

definition int_strip :: "string \<Rightarrow> string" where
  "int_strip s = rev (dropWhile is_int_space (rev (dropWhile is_int_space s)))"

text \<open>
  The digits of a decimal literal; single underscores are allowed between digits. The flag
  tells whether the previous character was a digit.
\<close>

fun int_literal_digits :: "bool \<Rightarrow> string \<Rightarrow> nat \<Rightarrow> nat option" where
  "int_literal_digits prev [] acc = (if prev then Some acc else None)"
| "int_literal_digits prev (c # cs) acc =
     (if is_digit c then int_literal_digits True cs (10 * acc + digit_val c)
      else if c = CHR ''_'' \<and> prev then int_literal_digits False cs acc
      else None)"

definition int_max_str_digits :: nat where
  \<comment> \<open>the default of \<^verbatim>\<open>sys.get_int_max_str_digits()\<close>\<close>
  "int_max_str_digits = 4300"

text \<open>
  \<^verbatim>\<open>int(s)\<close> for a string: optional sign, then the digits; a literal with more digits
  than the limit (underscores and sign not counted) is refused like a malformed one.
\<close>

definition py_int :: "string \<Rightarrow> py_exception + int" where
  "py_int s =
     (let t = int_strip s;
          neg = (t \<noteq> [] \<and> hd t = CHR ''-'');
          body = (if t \<noteq> [] \<and> (hd t = CHR ''-'' \<or> hd t = CHR ''+'') then tl t else t)
      in case int_literal_digits False body 0 of
           None \<Rightarrow> Inl (Raise ValueError [])
         | Some n \<Rightarrow>
             if int_max_str_digits < length (filter is_digit body) then Inl (Raise ValueError [])
             else Inr (if neg then - int n else int n))"

definition py_int_opt :: "string option \<Rightarrow> py_exception + int" where
  \<comment> \<open>\<^verbatim>\<open>int(x)\<close> where \<open>x\<close> may be \<^verbatim>\<open>None\<close>\<close>
  "py_int_opt x = (case x of None \<Rightarrow> Inl (Raise TypeError []) | Some s \<Rightarrow> py_int s)"

text \<open>
  The plain way to write an integer in a request: an optional sign followed by at least
  one and at most 4300 decimal digits, and the number it denotes.
\<close>

definition unsigned_part :: "string \<Rightarrow> string" where
  "unsigned_part s = (if s \<noteq> [] \<and> (hd s = CHR ''-'' \<or> hd s = CHR ''+'') then tl s else s)"

definition is_decimal_literal :: "string \<Rightarrow> bool" where
  "is_decimal_literal s =
     (unsigned_part s \<noteq> [] \<and> list_all is_digit (unsigned_part s)
      \<and> length (unsigned_part s) \<le> 4300)"

definition decimal_literal_value :: "string \<Rightarrow> int" where
  "decimal_literal_value s =
     (if s \<noteq> [] \<and> hd s = CHR ''-'' then - int (dec_value (unsigned_part s))
      else int (dec_value (unsigned_part s)))"

subsection \<open>Strict UTF-8 decoding and \<^verbatim>\<open>bytes.hex\<close>\<close>

definition is_cont :: "byte \<Rightarrow> bool" where
  "is_cont b = (0x80 \<le> unat b \<and> unat b \<le> 0xBF)"

definition cont_bits :: "byte \<Rightarrow> nat" where
  "cont_bits b = unat b - 0x80"

text \<open>
  \<^verbatim>\<open>content.decode('utf-8')\<close> with the default error handler: the code points of a
  well-formed UTF-8 byte sequence, or \<open>None\<close> for \<^verbatim>\<open>UnicodeDecodeError\<close>. Overlong forms,
  surrogates, values above U+10FFFF and truncated sequences are rejected.
\<close>

fun utf8_decode :: "byte list \<Rightarrow> nat list option" where
  "utf8_decode [] = Some []"
| "utf8_decode (b0 # bs) =
     (let a = unat b0 in
      if a < 0x80 then map_option (Cons a) (utf8_decode bs)
      else if 0xC2 \<le> a \<and> a \<le> 0xDF then
        (case bs of
           b1 # rest \<Rightarrow>
             if is_cont b1
             then map_option (Cons ((a - 0xC0) * 64 + cont_bits b1)) (utf8_decode rest)
             else None
         | _ \<Rightarrow> None)
      else if 0xE0 \<le> a \<and> a \<le> 0xEF then
        (case bs of
           b1 # b2 # rest \<Rightarrow>
             if is_cont b1 \<and> is_cont b2
                \<and> (a = 0xE0 \<longrightarrow> 0xA0 \<le> unat b1) \<and> (a = 0xED \<longrightarrow> unat b1 \<le> 0x9F)
             then map_option (Cons ((a - 0xE0) * 4096 + cont_bits b1 * 64 + cont_bits b2))
                    (utf8_decode rest)
             else None
         | _ \<Rightarrow> None)
      else if 0xF0 \<le> a \<and> a \<le> 0xF4 then
        (case bs of
           b1 # b2 # b3 # rest \<Rightarrow>
             if is_cont b1 \<and> is_cont b2 \<and> is_cont b3
                \<and> (a = 0xF0 \<longrightarrow> 0x90 \<le> unat b1) \<and> (a = 0xF4 \<longrightarrow> unat b1 \<le> 0x8F)
             then map_option
                    (Cons ((a - 0xF0) * 262144 + cont_bits b1 * 4096 + cont_bits b2 * 64 + cont_bits b3))
                    (utf8_decode rest)
             else None
         | _ \<Rightarrow> None)
      else None)"

text \<open>
  For comparison, UTF-8 in the other direction, as the standard defines it: the Unicode
  scalar values are the code points up to U+10FFFF outside the surrogate range, and each
  is written in one to four bytes.
\<close>

definition is_scalar_value :: "nat \<Rightarrow> bool" where
  "is_scalar_value c = (c < 0xD800 \<or> (0xE000 \<le> c \<and> c < 0x110000))"

definition utf8_encode_cp :: "nat \<Rightarrow> byte list" where
  "utf8_encode_cp c =
     (if c < 0x80 then [of_nat c]
      else if c < 0x800 then [of_nat (0xC0 + c div 64), of_nat (0x80 + c mod 64)]
      else if c < 0x10000 then
        [of_nat (0xE0 + c div 4096), of_nat (0x80 + c div 64 mod 64), of_nat (0x80 + c mod 64)]
      else
        [of_nat (0xF0 + c div 262144), of_nat (0x80 + c div 4096 mod 64),
         of_nat (0x80 + c div 64 mod 64), of_nat (0x80 + c mod 64)])"

definition utf8_encode :: "nat list \<Rightarrow> byte list" where
  "utf8_encode cps = concat (map utf8_encode_cp cps)"

definition hex_digit :: "nat \<Rightarrow> char" where
  "hex_digit d = ''0123456789abcdef'' ! d"

definition byte_hex :: "byte \<Rightarrow> string" where
  "byte_hex b = [hex_digit (unat b div 16), hex_digit (unat b mod 16)]"

definition bytes_hex :: "byte list \<Rightarrow> string" where
  "bytes_hex bs = concat (map byte_hex bs)"

definition code_points :: "string \<Rightarrow> nat list" where
  \<comment> \<open>an ASCII string as the sequence of its code points\<close>
  "code_points s = map of_char s"

subsection \<open>Requests, responses, application state\<close>

text \<open>
  \<^verbatim>\<open>create_app\<close> owns the dictionary \<^verbatim>\<open>image_handlers\<close>; \<^verbatim>\<open>flash\<close> appends a
  message for the user. A view returns a response or lets an exception escape.
  \<^verbatim>\<open>request.args\<close> is a map from parameter names to strings; \<^verbatim>\<open>request.files\<close> is
  represented by the file name of each uploaded part; \<^verbatim>\<open>request.json\<close> is the parsed
  body, or \<open>None\<close> when Flask cannot produce one and aborts the request.
\<close>

record app_state =
  image_handlers :: "string \<rightharpoonup> handler"
  flashes :: "string list"

definition flash :: "string \<Rightarrow> app_state \<Rightarrow> app_state" where
  "flash msg st = st\<lparr>flashes := flashes st @ [msg]\<rparr>"

datatype endpoint = Index | Browse string

datatype response =
    Redirect endpoint
  | Jsonify_error string nat
  | Jsonify_entries "py_dict list"
  | Jsonify_files "py_dict list"
  | Send_file "byte list" string
  | Render_view_file string int "nat list" bool nat
  | Render_search "string option" "py_dict list" string

text \<open>
  What the views take from their surroundings: the directory of the module (for
  \<^verbatim>\<open>UPLOAD_FOLDER\<close>), \<^verbatim>\<open>werkzeug.utils.secure_filename\<close>, the outcome of
  \<^verbatim>\<open>file.save\<close>, and the constructor \<^verbatim>\<open>ImageHandler\<close>.
\<close>

record env =
  module_dir :: string
  secure_filename :: "string \<Rightarrow> string"
  file_save :: "string \<Rightarrow> py_exception option"
  ImageHandler :: "string \<Rightarrow> py_exception + handler"

definition UPLOAD_FOLDER :: "env \<Rightarrow> string" where
  "UPLOAD_FOLDER e = os_path_join (module_dir e) ''uploads''"

definition handlers_get :: "(string \<rightharpoonup> handler) \<Rightarrow> string option \<Rightarrow> handler option" where
  \<comment> \<open>\<^verbatim>\<open>image_handlers.get(token)\<close>, where the token may be \<^verbatim>\<open>None\<close>\<close>
  "handlers_get hs token = (case token of None \<Rightarrow> None | Some t \<Rightarrow> hs t)"

definition args_get :: "(string \<rightharpoonup> string) \<Rightarrow> string \<Rightarrow> string \<Rightarrow> string" where
  \<comment> \<open>\<^verbatim>\<open>request.args.get(key, default)\<close>\<close>
  "args_get args k d = (case args k of None \<Rightarrow> d | Some v \<Rightarrow> v)"

subsection \<open>The upload view\<close>

text \<open>The \<^verbatim>\<open>try\<close> statement of \<^verbatim>\<open>upload\<close>, for the path the file was saved under.\<close>

definition upload_try :: "env \<Rightarrow> string \<Rightarrow> app_state \<Rightarrow> (py_exception + response) \<times> app_state" where
  "upload_try e saved_path st =
     (case ImageHandler e saved_path of
        Inr handler \<Rightarrow>
          (let token = os_path_basename saved_path
           in (Inr (Redirect (Browse token)),
               st\<lparr>image_handlers := (image_handlers st)(token \<mapsto> handler)\<rparr>))
      | Inl ex \<Rightarrow>
          if is_ImportError ex then
            (let st1 = flash (''Forensic libraries not installed. Running in demo mode. Error: '' @ exc_str ex) st;
                 demo_handler = DemoImageHandler saved_path;
                 token = os_path_basename saved_path
             in (Inr (Redirect (Browse token)),
                 st1\<lparr>image_handlers := (image_handlers st1)(token \<mapsto> demo_handler)\<rparr>))
          else if is_Exception ex then
            (Inr (Redirect Index), flash (''Error processing image: '' @ exc_str ex) st)
          else (Inl ex, st))"

definition upload :: "env \<Rightarrow> (string \<rightharpoonup> string) \<Rightarrow> app_state \<Rightarrow> (py_exception + response) \<times> app_state" where
  "upload e files st =
     (case files ''image'' of
        None \<Rightarrow> (Inr (Redirect Index), flash ''No file part'' st)
      | Some file_filename \<Rightarrow>
          if file_filename = [] then (Inr (Redirect Index), flash ''No selected file'' st)
          else if \<not> allowed_file file_filename then
            (Inr (Redirect Index), flash ''Unsupported file type'' st)
          else
            (let filename = secure_filename e file_filename;
                 saved_path = os_path_join (UPLOAD_FOLDER e) filename
             in case file_save e saved_path of
                  Some ex \<Rightarrow> (Inl ex, st)
                | None \<Rightarrow> upload_try e saved_path st))"

subsection \<open>The query views\<close>

definition api_list :: "(string \<rightharpoonup> handler) \<Rightarrow> (string \<rightharpoonup> string) \<Rightarrow> py_exception + response" where
  "api_list hs args =
     (let token = args ''token'' in
      case py_int (args_get args ''start_offset'' ''0'') of
        Inl ex \<Rightarrow> Inl ex
      | Inr start_offset \<Rightarrow>
          (case (case args ''inode'' of
                   None \<Rightarrow> Inr None
                 | Some inode \<Rightarrow> (case py_int inode of Inl ex \<Rightarrow> Inl ex | Inr n \<Rightarrow> Inr (Some n))) of
             Inl ex \<Rightarrow> Inl ex
           | Inr inode_num \<Rightarrow>
               (case handlers_get hs token of
                  None \<Rightarrow> Inr (Jsonify_error ''invalid token'' 400)
                | Some handler \<Rightarrow>
                    (case get_directory_contents handler start_offset inode_num of
                       Inl ex \<Rightarrow> Inl ex
                     | Inr entries \<Rightarrow> Inr (Jsonify_entries entries)))))"

definition api_file :: "(string \<rightharpoonup> handler) \<Rightarrow> (string \<rightharpoonup> string) \<Rightarrow> py_exception + response" where
  "api_file hs args =
     (let token = args ''token'' in
      case py_int_opt (args ''inode'') of
        Inl ex \<Rightarrow> Inl ex
      | Inr inode \<Rightarrow>
          (case py_int (args_get args ''start_offset'' ''0'') of
             Inl ex \<Rightarrow> Inl ex
           | Inr start_offset \<Rightarrow>
               (case handlers_get hs token of
                  None \<Rightarrow> Inr (Jsonify_error ''invalid token'' 400)
                | Some handler \<Rightarrow>
                    (case get_file_content handler inode start_offset of
                       Inl ex \<Rightarrow> Inl ex
                     | Inr (None, meta) \<Rightarrow> Inr (Jsonify_error ''not found'' 404)
                     | Inr (Some content, meta) \<Rightarrow>
                         Inr (Send_file content (''inode_'' @ (if inode < 0 then ''-'' else []) @ dec_digits (nat (abs inode)) @ ''.bin''))))))"

text \<open>
  \<^verbatim>\<open>request.json.get(key, default)\<close>: only a JSON object has the method; of a repeated
  key the last occurrence counts.
\<close>

definition json_get :: "py_val \<Rightarrow> string \<Rightarrow> py_val \<Rightarrow> py_exception + py_val" where
  "json_get j k d =
     (case j of
        PDict kvs \<Rightarrow> Inr (case map_of (rev kvs) k of None \<Rightarrow> d | Some v \<Rightarrow> v)
      | _ \<Rightarrow> Inl (Raise AttributeError []))"

text \<open>
  \<^verbatim>\<open>image_handlers.get(token)\<close> for a JSON value: the keys of the table are strings, so a
  number, a boolean or null finds nothing; a list or an object cannot be hashed.
\<close>

definition handlers_get_val :: "(string \<rightharpoonup> handler) \<Rightarrow> py_val \<Rightarrow> py_exception + handler option" where
  "handlers_get_val hs token =
     (case token of
        PStr t \<Rightarrow> Inr (hs t)
      | PList _ \<Rightarrow> Inl (Raise TypeError [])
      | PDict _ \<Rightarrow> Inl (Raise TypeError [])
      | _ \<Rightarrow> Inr None)"

definition api_carve :: "(string \<rightharpoonup> handler) \<Rightarrow> py_val option \<Rightarrow> py_exception + response" where
  "api_carve hs request_json =
     (case request_json of
        None \<Rightarrow> Inl (Raise HTTPException [])
      | Some j \<Rightarrow>
          (case json_get j ''token'' PNone of
             Inl ex \<Rightarrow> Inl ex
           | Inr token \<Rightarrow>
               (case json_get j ''type'' (PStr ''all'') of
                  Inl ex \<Rightarrow> Inl ex
                | Inr file_type \<Rightarrow>
                    (case handlers_get_val hs token of
                       Inl ex \<Rightarrow> Inl ex
                     | Inr None \<Rightarrow> Inr (Jsonify_error ''invalid token'' 400)
                     | Inr (Some handler) \<Rightarrow>
                         (case carve_files_by_type handler file_type of
                            Inl ex \<Rightarrow> Inl ex
                          | Inr carved_files \<Rightarrow> Inr (Jsonify_files carved_files))))))"

definition search :: "(string \<rightharpoonup> handler) \<Rightarrow> (string \<rightharpoonup> string) \<Rightarrow> py_exception + response" where
  "search hs args =
     (let token = args ''token'';
          query = args_get args ''q'' []
      in case handlers_get hs token of
           None \<Rightarrow> Inr (Jsonify_error ''invalid token'' 400)
         | Some handler \<Rightarrow>
             (case search_files handler query of
                Inl ex \<Rightarrow> Inl ex
              | Inr results \<Rightarrow> Inr (Render_search token results query)))"

subsection \<open>The file view\<close>

definition view_file ::
  "app_state \<Rightarrow> string \<Rightarrow> int \<Rightarrow> (string \<rightharpoonup> string) \<Rightarrow> (py_exception + response) \<times> app_state" where
  "view_file st token inode args =
     (case py_int (args_get args ''start_offset'' ''0'') of
        Inl ex \<Rightarrow> (Inl ex, st)
      | Inr start_offset \<Rightarrow>
          (case image_handlers st token of
             None \<Rightarrow> (Inr (Redirect Index), flash ''Session expired. Re-upload the image.'' st)
           | Some handler \<Rightarrow>
               (case get_file_content handler inode start_offset of
                  Inl ex \<Rightarrow> (Inl ex, st)
                | Inr (None, meta) \<Rightarrow>
                    (Inr (Redirect (Browse token)), flash ''File not found or could not be read.'' st)
                | Inr (Some content, meta) \<Rightarrow>
                    (case utf8_decode content of
                       Some text_content \<Rightarrow>
                         (Inr (Render_view_file token inode text_content True (length content)), st)
                     | None \<Rightarrow>
                         (Inr (Render_view_file token inode
                                 (code_points (bytes_hex (take 1000 content))) False (length content)),
                          st)))))"

subsection \<open>Sample surroundings for concrete runs\<close>

text \<open>
  An environment whose \<^verbatim>\<open>ImageHandler\<close> constructor always fails with a given exception
  (the situation of an installation without the forensic libraries), and a handler that
  serves the first four bytes of a PNG file, which are not UTF-8.
\<close>

definition demo_env :: "py_exception \<Rightarrow> env" where
  "demo_env ex = \<lparr>module_dir = ''/srv/webapp'', secure_filename = (\<lambda>f. f),
                  file_save = (\<lambda>p. None), ImageHandler = (\<lambda>p. Inl ex)\<rparr>"

definition binary_handler :: handler where
  "binary_handler = (DemoImageHandler ''/tmp/img1.raw'')
     \<lparr>get_file_content := (\<lambda>inode_number offset. Inr (Some [0x89, 0x50, 0x4E, 0x47], None))\<rparr>"

section \<open>Properties of the evidence registry\<close>

lemma digit_char_is_digit: "d < 10 \<Longrightarrow> is_digit (digit_char d)"
  by (simp add: is_digit_def digit_char_def)

lemma digit_val_digit_char: "d < 10 \<Longrightarrow> digit_val (digit_char d) = d"
  by (simp add: digit_val_def digit_char_def)

lemma dec_digits_all_digits: "list_all is_digit (dec_digits n)"
proof (induction n rule: dec_digits.induct)
  case (1 n)
  show ?case
  proof (cases "n < 10")
    case True
    then show ?thesis by (subst dec_digits.simps) (simp add: digit_char_is_digit)
  next
    case False
    with 1 show ?thesis by (subst dec_digits.simps) (simp add: digit_char_is_digit)
  qed
qed

lemma dec_digits_nonempty: "dec_digits n \<noteq> []"
  by (subst dec_digits.simps) simp

lemma dec_value_snoc: "dec_value (s @ [c]) = 10 * dec_value s + digit_val c"
  by (simp add: dec_value_def)

lemma dec_value_dec_digits: "dec_value (dec_digits n) = n"
proof (induction n rule: dec_digits.induct)
  case (1 n)
  show ?case
  proof (cases "n < 10")
    case True
    then show ?thesis
      by (subst dec_digits.simps) (simp add: dec_value_def digit_val_digit_char)
  next
    case False
    with 1 have "dec_value (dec_digits (n div 10)) = n div 10" by simp
    with False show ?thesis
      by (subst dec_digits.simps) (simp add: dec_value_snoc digit_val_digit_char)
  qed
qed

lemma dec_value_zeros: "foldl (\<lambda>a c. 10 * a + digit_val c) 0 (replicate k (CHR ''0'')) = 0"
  by (induction k) (simp_all add: digit_val_def)

lemma dec_value_zero_pad: "dec_value (zero_pad w s) = dec_value s"
  by (simp add: dec_value_def zero_pad_def dec_value_zeros)

lemma zero_pad_all_digits: "list_all is_digit s \<Longrightarrow> list_all is_digit (zero_pad w s)"
  by (auto simp: zero_pad_def list_all_iff is_digit_def)

lemma length_zero_pad: "w \<le> length (zero_pad w s)"
  by (simp add: zero_pad_def)

lemma format_03d_digits: "0 \<le> n \<Longrightarrow> list_all is_digit (format_03d n)"
  by (simp add: format_03d_def zero_pad_all_digits dec_digits_all_digits)

lemma format_03d_length: "0 \<le> n \<Longrightarrow> 3 \<le> length (format_03d n)"
  by (simp add: format_03d_def length_zero_pad)

lemma format_03d_value: "0 \<le> n \<Longrightarrow> int (dec_value (format_03d n)) = n"
  by (simp add: format_03d_def dec_value_zero_pad dec_value_dec_digits)

lemma format_03d_inj: "0 \<le> m \<Longrightarrow> 0 \<le> n \<Longrightarrow> format_03d m = format_03d n \<Longrightarrow> m = n"
  by (metis format_03d_value)

lemma run_calls_snoc: "run_calls (cs @ [c]) = exec_call (run_calls cs) c"
  by (simp add: run_calls_def)


lemma run_calls_invariant:
  "next_id (snd (run_calls cs)) = int (length (fst (run_calls cs))) + 1 \<and>
   fst (run_calls cs) = map eid_of [0..<length (fst (run_calls cs))] \<and>
   dom (evidence_db (snd (run_calls cs))) = set (fst (run_calls cs))"
proof (induction cs rule: rev_induct)
  case Nil
  show ?case by (simp add: run_calls_def init_registry_def)
next
  case (snoc c cs)
  obtain ids st where r: "run_calls cs = (ids, st)" by (cases "run_calls cs")
  with snoc have inv: "next_id st = int (length ids) + 1" "ids = map eid_of [0..<length ids]"
    "dom (evidence_db st) = set ids" by simp_all
  show ?case
  proof (cases c)
    case (Add p)
    have "fst (add_evidence p st) = eid_of (length ids)"
      by (simp add: add_evidence_def eid_of_def inv(1) Let_def)
    with Add r inv show ?thesis
      apply (simp add: run_calls_snoc)
      apply (simp add: add_evidence_def Let_def)
      done
  next
    case (Close e)
    with r inv show ?thesis
      by (auto simp: run_calls_snoc close_evidence_def split: option.splits)
  qed
qed



lemma added_paths_append: "added_paths (cs @ ds) = added_paths cs @ added_paths ds"
  by (induction cs rule: added_paths.induct) simp_all

lemma eid_of_inj: "eid_of i = eid_of j \<Longrightarrow> i = j"
  using format_03d_inj [of "int i + 1" "int j + 1"] by (simp add: eid_of_def)

lemma run_calls_ids:
  assumes "run_calls cs = (ids, st)"
  shows "next_id st = int (length ids) + 1" and "ids = map eid_of [0..<length ids]"
    and "dom (evidence_db st) = set ids"
  using run_calls_invariant [of cs] assms by simp_all

lemma eid_of_fresh:
  assumes "ids = map eid_of [0..<length ids]"
  shows "eid_of (length ids) \<notin> set ids"
proof
  assume "eid_of (length ids) \<in> set ids"
  then have "eid_of (length ids) \<in> set (map eid_of [0..<length ids])" using assms by simp
  then obtain k where "k < length ids" "eid_of (length ids) = eid_of k" by auto
  then show False using eid_of_inj by blast
qed

lemma ids_distinct:
  assumes "ids = map eid_of [0..<length ids]"
  shows "distinct ids"
proof -
  have "inj_on eid_of (set [0..<length ids])" by (auto simp: inj_on_def dest: eid_of_inj)
  then have "distinct (map eid_of [0..<length ids])" by (simp add: distinct_map)
  with assms show ?thesis by simp
qed

lemma add_evidence_eid: "next_id st = int k + 1 \<Longrightarrow> fst (add_evidence p st) = eid_of k"
  by (simp add: add_evidence_def eid_of_def Let_def)

lemma run_calls_paths:
  "map (\<lambda>e. map_option path (evidence_db (snd (run_calls cs)) e)) (fst (run_calls cs))
     = map Some (added_paths cs)"
proof (induction cs rule: rev_induct)
  case Nil
  show ?case by (simp add: run_calls_def)
next
  case (snoc c cs)
  obtain ids st where r: "run_calls cs = (ids, st)" by (cases "run_calls cs")
  note inv = run_calls_ids [OF r]
  from snoc r have ih: "map (\<lambda>e. map_option path (evidence_db st e)) ids = map Some (added_paths cs)"
    by simp
  show ?case
  proof (cases c)
    case (Add p)
    have e: "fst (add_evidence p st) = eid_of (length ids)" by (rule add_evidence_eid [OF inv(1)])
    have fresh: "eid_of (length ids) \<notin> set ids" by (rule eid_of_fresh [OF inv(2)])
    have db: "evidence_db (snd (add_evidence p st))
                = (evidence_db st)(eid_of (length ids) \<mapsto> \<lparr>path = p, is_open = True\<rparr>)"
      using e by (simp add: add_evidence_def Let_def)
    have old: "map (\<lambda>e. map_option path (evidence_db (snd (add_evidence p st)) e)) ids
                 = map (\<lambda>e. map_option path (evidence_db st e)) ids"
      using fresh by (auto simp: db)
    have new: "map_option path (evidence_db (snd (add_evidence p st)) (eid_of (length ids))) = Some p"
      by (simp add: db)
    show ?thesis
      using Add r by (simp add: run_calls_snoc added_paths_append e old ih new)
  next
    case (Close e)
    have "map_option path (evidence_db (snd (close_evidence e st)) x)
            = map_option path (evidence_db st x)" for x
      by (simp add: close_evidence_def split: option.splits)
    with Close r ih show ?thesis by (simp add: run_calls_snoc added_paths_append)
  qed
qed


lemma format_03d_1: "format_03d 1 = ''001''"
  by code_simp

lemma format_03d_2: "format_03d 2 = ''002''"
  by code_simp

lemma eid_of_pattern: "matches_eid_pattern (eid_of k)"
  by (simp add: eid_of_def format_03d_length format_03d_digits)

lemma eid_of_value: "dec_value (tl (eid_of k)) = k + 1"
  using format_03d_value [of "int k + 1"] by (simp add: eid_of_def)

lemma close_evidence_next_id: "next_id (snd (close_evidence eid st)) = next_id st"
  by (simp add: close_evidence_def split: option.splits)

lemma add_evidence_next_id: "next_id (snd (add_evidence p st)) = next_id st + 1"
  by (simp add: add_evidence_def Let_def)

text \<open>
  C4. In every state that a history of registrations and closes leads to, registering a
  path returns an identifier that no earlier registration returned, and resolving that
  identifier right afterwards gives the record with the path registered and the open flag set.
\<close>

theorem add_evidence_fresh_and_resolvable:
  assumes "run_calls cs = (ids, st)" and "add_evidence p st = (eid, st')"
  shows "eid \<notin> set ids \<and> resolve_evidence eid st' = Some \<lparr>path = p, is_open = True\<rparr>"
proof -
  note inv = run_calls_ids [OF assms(1)]
  have "eid = eid_of (length ids)" using add_evidence_eid [OF inv(1), of p] assms(2) by simp
  then have "eid \<notin> set ids" using eid_of_fresh [OF inv(2)] by simp
  moreover have "resolve_evidence eid st' = Some \<lparr>path = p, is_open = True\<rparr>"
    using assms(2) by (auto simp: add_evidence_def resolve_evidence_def Let_def)
  ultimately show ?thesis by simp
qed

theorem add_evidence_fresh_and_resolvable_witness:
  "run_calls [Add ''/tmp/a.raw'', Close ''E001'']
     = ([''E001''],
        \<lparr>evidence_db = [''E001'' \<mapsto> \<lparr>path = ''/tmp/a.raw'', is_open = False\<rparr>], next_id = 2\<rparr>)
   \<and> add_evidence ''/tmp/b.dd''
        \<lparr>evidence_db = [''E001'' \<mapsto> \<lparr>path = ''/tmp/a.raw'', is_open = False\<rparr>], next_id = 2\<rparr>
     = (''E002'',
        \<lparr>evidence_db = [''E001'' \<mapsto> \<lparr>path = ''/tmp/a.raw'', is_open = False\<rparr>,
                        ''E002'' \<mapsto> \<lparr>path = ''/tmp/b.dd'', is_open = True\<rparr>], next_id = 3\<rparr>)
   \<and> ''E002'' \<notin> set [''E001'']
   \<and> resolve_evidence ''E002''
        \<lparr>evidence_db = [''E001'' \<mapsto> \<lparr>path = ''/tmp/a.raw'', is_open = False\<rparr>,
                        ''E002'' \<mapsto> \<lparr>path = ''/tmp/b.dd'', is_open = True\<rparr>], next_id = 3\<rparr>
     = Some \<lparr>path = ''/tmp/b.dd'', is_open = True\<rparr>"
proof -
  have r: "run_calls [Add ''/tmp/a.raw'', Close ''E001'']
     = ([''E001''],
        \<lparr>evidence_db = [''E001'' \<mapsto> \<lparr>path = ''/tmp/a.raw'', is_open = False\<rparr>], next_id = 2\<rparr>)"
    by (simp add: run_calls_def init_registry_def add_evidence_def close_evidence_def
        format_03d_1 Let_def)
  have a: "add_evidence ''/tmp/b.dd''
        \<lparr>evidence_db = [''E001'' \<mapsto> \<lparr>path = ''/tmp/a.raw'', is_open = False\<rparr>], next_id = 2\<rparr>
     = (''E002'',
        \<lparr>evidence_db = [''E001'' \<mapsto> \<lparr>path = ''/tmp/a.raw'', is_open = False\<rparr>,
                        ''E002'' \<mapsto> \<lparr>path = ''/tmp/b.dd'', is_open = True\<rparr>], next_id = 3\<rparr>)"
    by (simp add: add_evidence_def format_03d_2 Let_def)
  show ?thesis using add_evidence_fresh_and_resolvable [OF r a] r a by simp
qed

text \<open>
  C5. Closing an identifier that is in the registry returns true, and resolving it afterwards
  gives a record whose open flag is false. Closing an unknown identifier returns false and
  leaves the whole state as it was. Closing a record that is already closed returns true and
  leaves the whole state as it was.
\<close>

theorem close_evidence_result:
  "(\<forall>r. evidence_db st eid = Some r \<longrightarrow>
      fst (close_evidence eid st) = True
      \<and> resolve_evidence eid (snd (close_evidence eid st)) = Some (r\<lparr>is_open := False\<rparr>)
      \<and> is_open (the (resolve_evidence eid (snd (close_evidence eid st)))) = False)
   \<and> (evidence_db st eid = None \<longrightarrow> close_evidence eid st = (False, st))
   \<and> (\<forall>r. evidence_db st eid = Some r \<and> is_open r = False \<longrightarrow> close_evidence eid st = (True, st))"
proof (intro conjI allI impI)
  fix r assume "evidence_db st eid = Some r"
  then show "fst (close_evidence eid st) = True"
    and "resolve_evidence eid (snd (close_evidence eid st)) = Some (r\<lparr>is_open := False\<rparr>)"
    and "is_open (the (resolve_evidence eid (snd (close_evidence eid st)))) = False"
    by (simp_all add: close_evidence_def resolve_evidence_def)
next
  assume "evidence_db st eid = None"
  then show "close_evidence eid st = (False, st)" by (simp add: close_evidence_def)
next
  fix r assume a: "evidence_db st eid = Some r \<and> is_open r = False"
  then have e1: "r\<lparr>is_open := False\<rparr> = r" by simp
  have e2: "(evidence_db st)(eid \<mapsto> r) = evidence_db st" using a by (simp add: fun_upd_idem)
  have "close_evidence eid st = (True, st\<lparr>evidence_db := (evidence_db st)(eid \<mapsto> r\<lparr>is_open := False\<rparr>)\<rparr>)"
    using a by (simp add: close_evidence_def)
  also have "\<dots> = (True, st)" unfolding e1 e2 by simp
  finally show "close_evidence eid st = (True, st)" .
qed

theorem close_evidence_result_witness:
  "fst (close_evidence ''E001'' (snd (add_evidence ''/tmp/a.raw'' init_registry))) = True
   \<and> resolve_evidence ''E001'' (snd (close_evidence ''E001'' (snd (add_evidence ''/tmp/a.raw'' init_registry))))
       = Some \<lparr>path = ''/tmp/a.raw'', is_open = False\<rparr>
   \<and> close_evidence ''E002'' (snd (add_evidence ''/tmp/a.raw'' init_registry))
       = (False, snd (add_evidence ''/tmp/a.raw'' init_registry))
   \<and> close_evidence ''E001'' (snd (close_evidence ''E001'' (snd (add_evidence ''/tmp/a.raw'' init_registry))))
       = (True, snd (close_evidence ''E001'' (snd (add_evidence ''/tmp/a.raw'' init_registry))))"
proof -
  let ?s1 = "snd (add_evidence ''/tmp/a.raw'' init_registry) :: string registry"
  let ?s2 = "snd (close_evidence ''E001'' ?s1)"
  have db1: "evidence_db ?s1 = [''E001'' \<mapsto> \<lparr>path = ''/tmp/a.raw'', is_open = True\<rparr>]"
    by (simp add: add_evidence_def init_registry_def format_03d_1 Let_def)
  have k1: "evidence_db ?s1 ''E001'' = Some \<lparr>path = ''/tmp/a.raw'', is_open = True\<rparr>"
    and u1: "evidence_db ?s1 ''E002'' = None"
    by (simp_all add: db1)
  have k2: "evidence_db ?s2 ''E001'' = Some \<lparr>path = ''/tmp/a.raw'', is_open = False\<rparr>
            \<and> is_open \<lparr>path = ''/tmp/a.raw'', is_open = False\<rparr> = False"
    by (simp add: close_evidence_def k1)
  from close_evidence_result [of ?s1 "''E001''"] k1
  have "fst (close_evidence ''E001'' ?s1) = True"
    and "resolve_evidence ''E001'' ?s2 = Some \<lparr>path = ''/tmp/a.raw'', is_open = False\<rparr>"
    by simp_all
  moreover from close_evidence_result [of ?s1 "''E002''"] u1
  have "close_evidence ''E002'' ?s1 = (False, ?s1)" by blast
  moreover from close_evidence_result [of ?s2 "''E001''"] k2
  have "close_evidence ''E001'' ?s2 = (True, ?s2)" by blast
  ultimately show ?thesis by simp
qed

text \<open>
  C6. In every history, the identifiers returned are pairwise different, whatever closes
  happen in between; the identifier of the registration number \<open>i\<close> (counted from 0) is the
  letter E followed by the counter value \<open>i + 1\<close> in format 03d, it matches
  \<^verbatim>\<open>E\d{3,}\<close>, and its digits read as a decimal numeral give that counter value back. The
  counter is one more than the number of registrations so far: a registration
  increases it by one and a close leaves it alone.
\<close>

theorem eid_format_and_uniqueness:
  assumes "run_calls cs = (ids, st)"
  shows "distinct ids
    \<and> (\<forall>i<length ids. ids ! i = ''E'' @ format_03d (int i + 1)
          \<and> matches_eid_pattern (ids ! i)
          \<and> dec_value (tl (ids ! i)) = i + 1)
    \<and> next_id st = int (length ids) + 1
    \<and> next_id (snd (add_evidence p st)) = next_id st + 1
    \<and> next_id (snd (close_evidence e st)) = next_id st"
proof -
  note inv = run_calls_ids [OF assms]
  have nth: "ids ! i = eid_of i" if "i < length ids" for i
  proof -
    have "ids ! i = map eid_of [0..<length ids] ! i" using inv(2) by simp
    with that show ?thesis by simp
  qed
  have d: "distinct ids" by (rule ids_distinct [OF inv(2)])
  have n: "\<forall>i<length ids. ids ! i = ''E'' @ format_03d (int i + 1)
          \<and> matches_eid_pattern (ids ! i) \<and> dec_value (tl (ids ! i)) = i + 1"
  proof (intro allI impI)
    fix i assume "i < length ids"
    then have "ids ! i = eid_of i" by (rule nth)
    then show "ids ! i = ''E'' @ format_03d (int i + 1)
          \<and> matches_eid_pattern (ids ! i) \<and> dec_value (tl (ids ! i)) = i + 1"
      using eid_of_pattern [of i] eid_of_value [of i] by (simp add: eid_of_def)
  qed
  show ?thesis
    using d n inv(1) add_evidence_next_id [of p st] close_evidence_next_id [of e st]
    by (intro conjI) assumption+
qed

theorem eid_format_and_uniqueness_witness:
  "run_calls [Add ''/tmp/a.raw'', Close ''E001'', Add ''/tmp/a.raw'']
     = ([''E001'', ''E002''],
        \<lparr>evidence_db = [''E001'' \<mapsto> \<lparr>path = ''/tmp/a.raw'', is_open = False\<rparr>,
                        ''E002'' \<mapsto> \<lparr>path = ''/tmp/a.raw'', is_open = True\<rparr>], next_id = 3\<rparr>)
   \<and> distinct [''E001'', ''E002'']
   \<and> matches_eid_pattern ''E001'' \<and> matches_eid_pattern ''E002''
   \<and> dec_value ''002'' = 2"
proof -
  have r: "run_calls [Add ''/tmp/a.raw'', Close ''E001'', Add ''/tmp/a.raw'']
     = ([''E001'', ''E002''],
        \<lparr>evidence_db = [''E001'' \<mapsto> \<lparr>path = ''/tmp/a.raw'', is_open = False\<rparr>,
                        ''E002'' \<mapsto> \<lparr>path = ''/tmp/a.raw'', is_open = True\<rparr>], next_id = 3\<rparr>)"
    by (simp add: run_calls_def init_registry_def add_evidence_def close_evidence_def
        format_03d_1 format_03d_2 Let_def)
  from eid_format_and_uniqueness [OF r]
  have d: "distinct [''E001'', ''E002'']"
    and n: "\<forall>i<length [''E001'', ''E002''].
          matches_eid_pattern ([''E001'', ''E002''] ! i) \<and> dec_value (tl ([''E001'', ''E002''] ! i)) = i + 1"
    by blast+
  from n [rule_format, of 0] have "matches_eid_pattern ''E001''" by simp
  moreover from n [rule_format, of 1] have "matches_eid_pattern ''E002'' \<and> dec_value ''002'' = 2"
    by simp
  ultimately show ?thesis using r d by simp
qed

text \<open>
  C9. A close changes nothing but the open flag of the record it names: the set of
  identifiers and the counter stay as they are, every record under another identifier is
  untouched, and the record under the closed identifier keeps every field except the flag,
  in particular its path. Hence, after any history, each identifier returned still resolves
  to a record carrying the path it was registered with.
\<close>

theorem close_evidence_frame:
  "dom (evidence_db (snd (close_evidence eid st))) = dom (evidence_db st)
   \<and> next_id (snd (close_evidence eid st)) = next_id st
   \<and> (\<forall>e. e \<noteq> eid \<longrightarrow> evidence_db (snd (close_evidence eid st)) e = evidence_db st e)
   \<and> (\<forall>r. evidence_db st eid = Some r \<longrightarrow>
         evidence_db (snd (close_evidence eid st)) eid = Some (r\<lparr>is_open := False\<rparr>)
         \<and> map_option path (evidence_db (snd (close_evidence eid st)) eid) = Some (path r))
   \<and> (run_calls cs = (ids, st) \<longrightarrow>
         map (\<lambda>e. map_option path (evidence_db (snd (close_evidence eid st)) e)) ids
           = map Some (added_paths cs))"
proof -
  have p: "map_option path (evidence_db (snd (close_evidence eid st)) x)
            = map_option path (evidence_db st x)" for x
    by (simp add: close_evidence_def split: option.splits)
  have "run_calls cs = (ids, st) \<longrightarrow>
         map (\<lambda>e. map_option path (evidence_db (snd (close_evidence eid st)) e)) ids
           = map Some (added_paths cs)"
    using run_calls_paths [of cs] by (auto simp: p)
  moreover have "dom (evidence_db (snd (close_evidence eid st))) = dom (evidence_db st)"
    by (auto simp: close_evidence_def split: option.splits if_splits)
  moreover have "\<forall>e. e \<noteq> eid \<longrightarrow> evidence_db (snd (close_evidence eid st)) e = evidence_db st e"
    by (simp add: close_evidence_def split: option.splits)
  moreover have "\<forall>r. evidence_db st eid = Some r \<longrightarrow>
         evidence_db (snd (close_evidence eid st)) eid = Some (r\<lparr>is_open := False\<rparr>)
         \<and> map_option path (evidence_db (snd (close_evidence eid st)) eid) = Some (path r)"
    by (simp add: close_evidence_def)
  ultimately show ?thesis by (simp add: close_evidence_next_id)
qed

theorem close_evidence_frame_witness:
  "run_calls [Add ''/tmp/a.raw'', Close ''E001'', Add ''/tmp/b.dd'']
     = ([''E001'', ''E002''],
        \<lparr>evidence_db = [''E001'' \<mapsto> \<lparr>path = ''/tmp/a.raw'', is_open = False\<rparr>,
                        ''E002'' \<mapsto> \<lparr>path = ''/tmp/b.dd'', is_open = True\<rparr>], next_id = 3\<rparr>)
   \<and> evidence_db (snd (close_evidence ''E002''
        \<lparr>evidence_db = [''E001'' \<mapsto> \<lparr>path = ''/tmp/a.raw'', is_open = False\<rparr>,
                        ''E002'' \<mapsto> \<lparr>path = ''/tmp/b.dd'', is_open = True\<rparr>], next_id = 3\<rparr>)) ''E001''
       = Some \<lparr>path = ''/tmp/a.raw'', is_open = False\<rparr>
   \<and> evidence_db (snd (close_evidence ''E002''
        \<lparr>evidence_db = [''E001'' \<mapsto> \<lparr>path = ''/tmp/a.raw'', is_open = False\<rparr>,
                        ''E002'' \<mapsto> \<lparr>path = ''/tmp/b.dd'', is_open = True\<rparr>], next_id = 3\<rparr>)) ''E002''
       = Some \<lparr>path = ''/tmp/b.dd'', is_open = False\<rparr>
   \<and> map (\<lambda>e. map_option path (evidence_db (snd (close_evidence ''E002''
        \<lparr>evidence_db = [''E001'' \<mapsto> \<lparr>path = ''/tmp/a.raw'', is_open = False\<rparr>,
                        ''E002'' \<mapsto> \<lparr>path = ''/tmp/b.dd'', is_open = True\<rparr>], next_id = 3\<rparr>)) e))
         [''E001'', ''E002'']
       = [Some ''/tmp/a.raw'', Some ''/tmp/b.dd'']"
proof -
  let ?st = "\<lparr>evidence_db = [''E001'' \<mapsto> \<lparr>path = ''/tmp/a.raw'', is_open = False\<rparr>,
                        ''E002'' \<mapsto> \<lparr>path = ''/tmp/b.dd'', is_open = True\<rparr>], next_id = 3\<rparr>"
  have r: "run_calls [Add ''/tmp/a.raw'', Close ''E001'', Add ''/tmp/b.dd''] = ([''E001'', ''E002''], ?st)"
    by (simp add: run_calls_def init_registry_def add_evidence_def close_evidence_def
        format_03d_1 format_03d_2 Let_def)
  have k1: "''E001'' \<noteq> ''E002''" and k2: "evidence_db ?st ''E002'' = Some \<lparr>path = ''/tmp/b.dd'', is_open = True\<rparr>"
    and k3: "evidence_db ?st ''E001'' = Some \<lparr>path = ''/tmp/a.raw'', is_open = False\<rparr>"
    by simp_all
  note f = close_evidence_frame [of "''E002''" ?st "[Add ''/tmp/a.raw'', Close ''E001'', Add ''/tmp/b.dd'']" "[''E001'', ''E002'']"]
  from f k1 k3 have "evidence_db (snd (close_evidence ''E002'' ?st)) ''E001''
       = Some \<lparr>path = ''/tmp/a.raw'', is_open = False\<rparr>" by simp
  moreover from f k2 have "evidence_db (snd (close_evidence ''E002'' ?st)) ''E002''
       = Some \<lparr>path = ''/tmp/b.dd'', is_open = False\<rparr>" by simp
  moreover from f r have "map (\<lambda>e. map_option path (evidence_db (snd (close_evidence ''E002'' ?st)) e))
         [''E001'', ''E002''] = [Some ''/tmp/a.raw'', Some ''/tmp/b.dd'']" by simp
  ultimately show ?thesis using r by simp
qed

section \<open>The UTF-8 decoder against the encoding\<close>

lemma unat_byte: "n < 256 \<Longrightarrow> unat (of_nat n :: byte) = n"
  by (simp add: unat_of_nat)

lemma byte_of_unat: "of_nat (unat (b :: byte)) = b"
  by simp

lemma unat_byte_less: "unat (b :: byte) < 256"
  using unsigned_less [of b, where 'a = nat] by simp

lemma split_cp3: "(c::nat) = (c div 4096) * 4096 + (c div 64 mod 64) * 64 + c mod 64"
proof -
  have "c = (c div 64) * 64 + c mod 64" by simp
  moreover have "c div 64 = (c div 64 div 64) * 64 + c div 64 mod 64" by simp
  moreover have "c div 64 div 64 = c div 4096" by (simp add: div_mult2_eq)
  ultimately show ?thesis by linarith
qed

lemma split_cp4:
  "(c::nat) = (c div 262144) * 262144 + (c div 4096 mod 64) * 4096 + (c div 64 mod 64) * 64 + c mod 64"
proof -
  have "c = (c div 4096) * 4096 + (c div 64 mod 64) * 64 + c mod 64" by (rule split_cp3)
  moreover have "c div 4096 = (c div 4096 div 64) * 64 + c div 4096 mod 64" by simp
  moreover have "c div 4096 div 64 = c div 262144" by (simp add: div_mult2_eq)
  ultimately show ?thesis by linarith
qed

lemma decode_encode_cp1:
  assumes "c < 0x80"
  shows "utf8_decode (utf8_encode_cp c @ bs) = map_option (Cons c) (utf8_decode bs)"
  using assms by (simp add: utf8_encode_cp_def unat_byte)

lemma decode_encode_cp2:
  assumes "0x80 \<le> c" "c < 0x800"
  shows "utf8_decode (utf8_encode_cp c @ bs) = map_option (Cons c) (utf8_decode bs)"
proof -
  define h l where "h = c div 64" and "l = c mod 64"
  have c: "c = h * 64 + l" and l: "l < 64" by (simp_all add: h_def l_def)
  have h: "2 \<le> h" "h < 32" using assms c l by arith+
  have e: "utf8_encode_cp c = [of_nat (0xC0 + h), of_nat (0x80 + l)]"
    using assms by (simp add: utf8_encode_cp_def h_def l_def)
  have u0: "unat (of_nat (0xC0 + h) :: byte) = 0xC0 + h" using h by (intro unat_byte) simp
  have u1: "unat (of_nat (0x80 + l) :: byte) = 0x80 + l" using l by (intro unat_byte) simp
  show ?thesis
    unfolding e using h l
    by (simp add: u0 u1 is_cont_def cont_bits_def c Let_def del: of_nat_add)
qed


lemma decode_encode_cp3:
  assumes "0x800 \<le> c" "c < 0x10000" "is_scalar_value c"
  shows "utf8_decode (utf8_encode_cp c @ bs) = map_option (Cons c) (utf8_decode bs)"
proof -
  define h m l where "h = c div 4096" and "m = c div 64 mod 64" and "l = c mod 64"
  have l: "l < 64" and m: "m < 64" by (simp_all add: m_def l_def)
  have c: "c = h * 4096 + m * 64 + l"
    unfolding h_def m_def l_def by (rule split_cp3)
  have h: "h < 16" using assms(2) c by linarith
  have lo: "h = 0 \<Longrightarrow> 32 \<le> m" using assms(1) c l by linarith
  have "c < 0xD800 \<or> 0xE000 \<le> c" using assms(3) by (auto simp: is_scalar_value_def)
  then have su: "h = 13 \<Longrightarrow> m < 32" using c l m by linarith
  have e: "utf8_encode_cp c = [of_nat (0xE0 + h), of_nat (0x80 + m), of_nat (0x80 + l)]"
    using assms by (simp add: utf8_encode_cp_def h_def m_def l_def)
  have u0: "unat (of_nat (0xE0 + h) :: byte) = 0xE0 + h" using h by (intro unat_byte) simp
  have u1: "unat (of_nat (0x80 + m) :: byte) = 0x80 + m" using m by (intro unat_byte) simp
  have u2: "unat (of_nat (0x80 + l) :: byte) = 0x80 + l" using l by (intro unat_byte) simp
  show ?thesis
    unfolding e using h l m lo su
    by (auto simp: u0 u1 u2 is_cont_def cont_bits_def c Let_def simp del: of_nat_add)
qed

lemma decode_encode_cp4:
  assumes "0x10000 \<le> c" "c < 0x110000"
  shows "utf8_decode (utf8_encode_cp c @ bs) = map_option (Cons c) (utf8_decode bs)"
proof -
  define h m1 m2 l where "h = c div 262144" and "m1 = c div 4096 mod 64"
    and "m2 = c div 64 mod 64" and "l = c mod 64"
  have l: "l < 64" and m2: "m2 < 64" and m1: "m1 < 64" by (simp_all add: m1_def m2_def l_def)
  have c: "c = h * 262144 + m1 * 4096 + m2 * 64 + l"
    unfolding h_def m1_def m2_def l_def by (rule split_cp4)
  have h: "h \<le> 4" using assms(2) c by linarith
  have lo: "h = 0 \<Longrightarrow> 16 \<le> m1" using assms(1) c l m2 by linarith
  have hi: "h = 4 \<Longrightarrow> m1 < 16" using assms(2) c by linarith
  have e: "utf8_encode_cp c
             = [of_nat (0xF0 + h), of_nat (0x80 + m1), of_nat (0x80 + m2), of_nat (0x80 + l)]"
    using assms by (simp add: utf8_encode_cp_def h_def m1_def m2_def l_def)
  have u0: "unat (of_nat (0xF0 + h) :: byte) = 0xF0 + h" using h by (intro unat_byte) simp
  have u1: "unat (of_nat (0x80 + m1) :: byte) = 0x80 + m1" using m1 by (intro unat_byte) simp
  have u2: "unat (of_nat (0x80 + m2) :: byte) = 0x80 + m2" using m2 by (intro unat_byte) simp
  have u3: "unat (of_nat (0x80 + l) :: byte) = 0x80 + l" using l by (intro unat_byte) simp
  show ?thesis
    unfolding e using h l m1 m2 lo hi
    by (auto simp: u0 u1 u2 u3 is_cont_def cont_bits_def c Let_def simp del: of_nat_add)
qed

lemma decode_encode_cp:
  assumes "is_scalar_value c"
  shows "utf8_decode (utf8_encode_cp c @ bs) = map_option (Cons c) (utf8_decode bs)"
proof -
  have "c < 0x110000" using assms by (auto simp: is_scalar_value_def)
  then consider "c < 0x80" | "0x80 \<le> c" "c < 0x800" | "0x800 \<le> c" "c < 0x10000"
    | "0x10000 \<le> c" "c < 0x110000" by linarith
  then show ?thesis
    by cases (simp_all add: decode_encode_cp1 decode_encode_cp2 decode_encode_cp3 decode_encode_cp4 assms)
qed

lemma utf8_decode_encode:
  "list_all is_scalar_value cps \<Longrightarrow> utf8_decode (utf8_encode cps) = Some cps"
proof (induction cps)
  case Nil
  show ?case by (simp add: utf8_encode_def)
next
  case (Cons c cps)
  then have "utf8_decode (utf8_encode cps) = Some cps" and "is_scalar_value c" by simp_all
  then show ?case
    using decode_encode_cp [of c "utf8_encode cps"] by (simp add: utf8_encode_def)
qed


lemma div_mod_64: "l < 64 \<Longrightarrow> (x * 64 + l) div 64 = x \<and> (x * 64 + l) mod 64 = (l::nat)"
  by simp

lemma encode_decoded_cp2:
  assumes "0xC2 \<le> unat b0" "unat b0 \<le> 0xDF" "is_cont b1"
  shows "utf8_encode_cp ((unat b0 - 0xC0) * 64 + cont_bits b1) = [b0, b1]
         \<and> is_scalar_value ((unat b0 - 0xC0) * 64 + cont_bits b1)"
proof -
  define h l where "h = unat b0 - 0xC0" and "l = cont_bits b1"
  have l: "l < 64" and h: "2 \<le> h" "h < 32"
    using assms by (auto simp: h_def l_def cont_bits_def is_cont_def)
  have b0: "of_nat (0xC0 + h) = b0" using assms(1) by (simp add: h_def)
  have b1: "of_nat (0x80 + l) = b1" using assms(3) by (simp add: l_def cont_bits_def is_cont_def)
  have r: "0x80 \<le> h * 64 + l" "h * 64 + l < 0x800" using h l by linarith+
  have "utf8_encode_cp (h * 64 + l) = [of_nat (0xC0 + h), of_nat (0x80 + l)]"
    using r div_mod_64 [OF l, of h] by (simp add: utf8_encode_cp_def del: of_nat_add)
  then have enc: "utf8_encode_cp (h * 64 + l) = [b0, b1]" by (simp only: b0 b1)
  have sc: "is_scalar_value (h * 64 + l)" using r by (simp add: is_scalar_value_def)
  from enc sc show ?thesis unfolding h_def l_def by (rule conjI)
qed

lemma encode_decoded_cp3:
  assumes "0xE0 \<le> unat b0" "unat b0 \<le> 0xEF" "is_cont b1" "is_cont b2"
    and "unat b0 = 0xE0 \<longrightarrow> 0xA0 \<le> unat b1" and "unat b0 = 0xED \<longrightarrow> unat b1 \<le> 0x9F"
  shows "utf8_encode_cp ((unat b0 - 0xE0) * 4096 + cont_bits b1 * 64 + cont_bits b2) = [b0, b1, b2]
         \<and> is_scalar_value ((unat b0 - 0xE0) * 4096 + cont_bits b1 * 64 + cont_bits b2)"
proof -
  define h m l where "h = unat b0 - 0xE0" and "m = cont_bits b1" and "l = cont_bits b2"
  define c where "c = h * 4096 + m * 64 + l"
  have l: "l < 64" and m: "m < 64" and h: "h < 16"
    using assms by (auto simp: h_def m_def l_def cont_bits_def is_cont_def)
  have lo: "h = 0 \<Longrightarrow> 32 \<le> m" and su: "h = 13 \<Longrightarrow> m < 32"
    using assms by (auto simp: h_def m_def cont_bits_def is_cont_def)
  have b0: "of_nat (0xE0 + h) = b0" using assms(1) by (simp add: h_def)
  have b1: "of_nat (0x80 + m) = b1" using assms(3) by (simp add: m_def cont_bits_def is_cont_def)
  have b2: "of_nat (0x80 + l) = b2" using assms(4) by (simp add: l_def cont_bits_def is_cont_def)
  have c': "c = (h * 64 + m) * 64 + l" by (simp add: c_def)
  have d1: "c mod 64 = l" and d2: "c div 64 = h * 64 + m"
    using div_mod_64 [OF l, of "h * 64 + m"] by (simp_all add: c')
  have d3: "c div 64 mod 64 = m" and d4': "c div 64 div 64 = h"
    using div_mod_64 [OF m, of h] by (simp_all add: d2)
  have d4: "c div 4096 = h" using d4' by (simp add: div_mult2_eq)
  have r: "0x800 \<le> c" "c < 0x10000" using h l m lo unfolding c_def by linarith+
  consider "h < 13" | "h = 13" | "13 < h" by linarith
  then have s: "c < 0xD800 \<or> 0xE000 \<le> c"
  proof cases
    case 1
    then show ?thesis using l m unfolding c_def by linarith
  next
    case 2
    then show ?thesis using l su unfolding c_def by linarith
  next
    case 3
    then show ?thesis unfolding c_def by linarith
  qed
  have "utf8_encode_cp c = [of_nat (0xE0 + h), of_nat (0x80 + m), of_nat (0x80 + l)]"
    using r by (simp add: utf8_encode_cp_def d1 d3 d4 del: of_nat_add)
  then have enc: "utf8_encode_cp c = [b0, b1, b2]" by (simp only: b0 b1 b2)
  have sc: "is_scalar_value c" using r s by (auto simp: is_scalar_value_def)
  from enc sc show ?thesis unfolding c_def h_def m_def l_def by (rule conjI)
qed

lemma encode_decoded_cp4:
  assumes "0xF0 \<le> unat b0" "unat b0 \<le> 0xF4" "is_cont b1" "is_cont b2" "is_cont b3"
    and "unat b0 = 0xF0 \<longrightarrow> 0x90 \<le> unat b1" and "unat b0 = 0xF4 \<longrightarrow> unat b1 \<le> 0x8F"
  shows "utf8_encode_cp ((unat b0 - 0xF0) * 262144 + cont_bits b1 * 4096 + cont_bits b2 * 64 + cont_bits b3)
           = [b0, b1, b2, b3]
         \<and> is_scalar_value ((unat b0 - 0xF0) * 262144 + cont_bits b1 * 4096 + cont_bits b2 * 64 + cont_bits b3)"
proof -
  define h m1 m2 l where "h = unat b0 - 0xF0" and "m1 = cont_bits b1" and "m2 = cont_bits b2"
    and "l = cont_bits b3"
  define c where "c = h * 262144 + m1 * 4096 + m2 * 64 + l"
  have l: "l < 64" and m2: "m2 < 64" and m1: "m1 < 64" and h: "h \<le> 4"
    using assms by (auto simp: h_def m1_def m2_def l_def cont_bits_def is_cont_def)
  have lo: "h = 0 \<Longrightarrow> 16 \<le> m1" and hi: "h = 4 \<Longrightarrow> m1 < 16"
    using assms by (auto simp: h_def m1_def cont_bits_def is_cont_def)
  have b0: "of_nat (0xF0 + h) = b0" using assms(1) by (simp add: h_def)
  have b1: "of_nat (0x80 + m1) = b1" using assms(3) by (simp add: m1_def cont_bits_def is_cont_def)
  have b2: "of_nat (0x80 + m2) = b2" using assms(4) by (simp add: m2_def cont_bits_def is_cont_def)
  have b3: "of_nat (0x80 + l) = b3" using assms(5) by (simp add: l_def cont_bits_def is_cont_def)
  have c': "c = ((h * 64 + m1) * 64 + m2) * 64 + l" by (simp add: c_def)
  have d1: "c mod 64 = l" and d2: "c div 64 = (h * 64 + m1) * 64 + m2"
    using div_mod_64 [OF l, of "(h * 64 + m1) * 64 + m2"] by (simp_all add: c')
  have d3: "c div 64 mod 64 = m2" and d4: "c div 64 div 64 = h * 64 + m1"
    using div_mod_64 [OF m2, of "h * 64 + m1"] by (simp_all add: d2)
  have d5: "c div 64 div 64 mod 64 = m1" and d6: "c div 64 div 64 div 64 = h"
    using div_mod_64 [OF m1, of h] by (simp_all add: d4)
  have e1: "c div 4096 = c div 64 div 64" by (simp add: div_mult2_eq)
  have e2: "c div 262144 = c div 64 div 64 div 64" by (simp add: div_mult2_eq)
  have r: "0x10000 \<le> c" "c < 0x110000" using h l m1 m2 lo hi unfolding c_def by linarith+
  have "utf8_encode_cp c
          = [of_nat (0xF0 + h), of_nat (0x80 + m1), of_nat (0x80 + m2), of_nat (0x80 + l)]"
    using r by (simp add: utf8_encode_cp_def e1 e2 d1 d3 d5 d6 del: of_nat_add)
  then have enc: "utf8_encode_cp c = [b0, b1, b2, b3]" by (simp only: b0 b1 b2 b3)
  have sc: "is_scalar_value c" using r by (simp add: is_scalar_value_def)
  from enc sc show ?thesis unfolding c_def h_def m1_def m2_def l_def by (rule conjI)
qed


lemma utf8_encode_Cons: "utf8_encode (c # cps) = utf8_encode_cp c @ utf8_encode cps"
  by (simp add: utf8_encode_def)

lemma utf8_decode_lead1:
  "unat b0 < 0x80 \<Longrightarrow> utf8_decode (b0 # bs) = map_option (Cons (unat b0)) (utf8_decode bs)"
  by (simp add: Let_def)

lemma utf8_decode_lead2:
  "0xC2 \<le> unat b0 \<Longrightarrow> unat b0 \<le> 0xDF \<Longrightarrow>
   utf8_decode (b0 # bs) =
     (case bs of
        b1 # rest \<Rightarrow>
          if is_cont b1
          then map_option (Cons ((unat b0 - 0xC0) * 64 + cont_bits b1)) (utf8_decode rest)
          else None
      | _ \<Rightarrow> None)"
  by (simp add: Let_def)

lemma utf8_decode_lead3:
  "0xE0 \<le> unat b0 \<Longrightarrow> unat b0 \<le> 0xEF \<Longrightarrow>
   utf8_decode (b0 # bs) =
     (case bs of
        b1 # b2 # rest \<Rightarrow>
          if is_cont b1 \<and> is_cont b2
             \<and> (unat b0 = 0xE0 \<longrightarrow> 0xA0 \<le> unat b1) \<and> (unat b0 = 0xED \<longrightarrow> unat b1 \<le> 0x9F)
          then map_option (Cons ((unat b0 - 0xE0) * 4096 + cont_bits b1 * 64 + cont_bits b2))
                 (utf8_decode rest)
          else None
      | _ \<Rightarrow> None)"
  by (simp add: Let_def)

lemma utf8_decode_lead4:
  "0xF0 \<le> unat b0 \<Longrightarrow> unat b0 \<le> 0xF4 \<Longrightarrow>
   utf8_decode (b0 # bs) =
     (case bs of
        b1 # b2 # b3 # rest \<Rightarrow>
          if is_cont b1 \<and> is_cont b2 \<and> is_cont b3
             \<and> (unat b0 = 0xF0 \<longrightarrow> 0x90 \<le> unat b1) \<and> (unat b0 = 0xF4 \<longrightarrow> unat b1 \<le> 0x8F)
          then map_option
                 (Cons ((unat b0 - 0xF0) * 262144 + cont_bits b1 * 4096 + cont_bits b2 * 64 + cont_bits b3))
                 (utf8_decode rest)
          else None
      | _ \<Rightarrow> None)"
  by (simp add: Let_def)

lemma utf8_decode_lead_bad:
  "\<not> unat b0 < 0x80 \<Longrightarrow> \<not> (0xC2 \<le> unat b0 \<and> unat b0 \<le> 0xF4) \<Longrightarrow> utf8_decode (b0 # bs) = None"
  by (auto simp: Let_def)

lemma utf8_encode_decode:
  "utf8_decode bs = Some cps \<Longrightarrow> list_all is_scalar_value cps \<and> utf8_encode cps = bs"
proof (induction bs arbitrary: cps rule: length_induct)
  case (1 bs)
  note IH = 1(1) [rule_format]
  note dec = 1(2)
  show ?case
  proof (cases bs)
    case Nil
    with dec show ?thesis by (simp add: utf8_encode_def)
  next
    case (Cons b0 bs')
    consider (one) "unat b0 < 0x80"
      | (two) "0xC2 \<le> unat b0" "unat b0 \<le> 0xDF"
      | (three) "0xE0 \<le> unat b0" "unat b0 \<le> 0xEF"
      | (four) "0xF0 \<le> unat b0" "unat b0 \<le> 0xF4"
      | (bad) "\<not> unat b0 < 0x80" "\<not> (0xC2 \<le> unat b0 \<and> unat b0 \<le> 0xF4)"
      by linarith
    then show ?thesis
    proof cases
      case one
      from dec [unfolded Cons utf8_decode_lead1 [OF one, of bs']]
      obtain cps' where d: "utf8_decode bs' = Some cps'" and c: "cps = unat b0 # cps'"
        by auto
      have "list_all is_scalar_value cps' \<and> utf8_encode cps' = bs'"
        using IH [of bs' cps'] d Cons by simp
      moreover have "utf8_encode_cp (unat b0) = [b0]" "is_scalar_value (unat b0)"
        using one by (simp_all add: utf8_encode_cp_def is_scalar_value_def)
      ultimately show ?thesis by (simp add: c Cons utf8_encode_Cons)
    next
      case two
      from dec [unfolded Cons utf8_decode_lead2 [OF two, of bs']]
      obtain b1 rest cps' where s: "bs' = b1 # rest" and k: "is_cont b1"
        and d: "utf8_decode rest = Some cps'"
        and c: "cps = ((unat b0 - 0xC0) * 64 + cont_bits b1) # cps'"
        by (auto split: list.splits if_splits)
      have "list_all is_scalar_value cps' \<and> utf8_encode cps' = rest"
        using IH [of rest cps'] d Cons s by simp
      then show ?thesis
        using encode_decoded_cp2 [OF two k] by (simp add: c Cons s utf8_encode_Cons)
    next
      case three
      from dec [unfolded Cons utf8_decode_lead3 [OF three, of bs']]
      obtain b1 b2 rest cps' where s: "bs' = b1 # b2 # rest"
        and k: "is_cont b1" "is_cont b2"
          "unat b0 = 0xE0 \<longrightarrow> 0xA0 \<le> unat b1" "unat b0 = 0xED \<longrightarrow> unat b1 \<le> 0x9F"
        and d: "utf8_decode rest = Some cps'"
        and c: "cps = ((unat b0 - 0xE0) * 4096 + cont_bits b1 * 64 + cont_bits b2) # cps'"
        by (auto split: list.splits if_splits)
      have "list_all is_scalar_value cps' \<and> utf8_encode cps' = rest"
        using IH [of rest cps'] d Cons s by simp
      then show ?thesis
        using encode_decoded_cp3 [OF three k] by (simp add: c Cons s utf8_encode_Cons)
    next
      case four
      from dec [unfolded Cons utf8_decode_lead4 [OF four, of bs']]
      obtain b1 b2 b3 rest cps' where s: "bs' = b1 # b2 # b3 # rest"
        and k: "is_cont b1" "is_cont b2" "is_cont b3"
          "unat b0 = 0xF0 \<longrightarrow> 0x90 \<le> unat b1" "unat b0 = 0xF4 \<longrightarrow> unat b1 \<le> 0x8F"
        and d: "utf8_decode rest = Some cps'"
        and c: "cps = ((unat b0 - 0xF0) * 262144 + cont_bits b1 * 4096 + cont_bits b2 * 64 + cont_bits b3) # cps'"
        by (auto split: list.splits if_splits)
      have "list_all is_scalar_value cps' \<and> utf8_encode cps' = rest"
        using IH [of rest cps'] d Cons s by simp
      then show ?thesis
        using encode_decoded_cp4 [OF four k] by (simp add: c Cons s utf8_encode_Cons)
    next
      case bad
      from dec [unfolded Cons utf8_decode_lead_bad [OF bad, of bs']] show ?thesis by simp
    qed
  qed
qed

lemma utf8_decode_iff:
  "utf8_decode bs = Some cps \<longleftrightarrow> list_all is_scalar_value cps \<and> utf8_encode cps = bs"
  using utf8_encode_decode utf8_decode_encode by blast

section \<open>Properties of the web application\<close>

lemma basename_tmp_img1: "os_path_basename ''/tmp/img1.raw'' = ''img1.raw''"
  by code_simp

lemma py_int_0: "py_int ''0'' = Inr 0"
  by code_simp

lemma py_int_5: "py_int ''5'' = Inr 5"
  by code_simp

lemma py_int_abc: "py_int ''abc'' = Inl (Raise ValueError [])"
  by code_simp

lemma splitext_examples:
  "splitext ''evidence.DMG'' = (''evidence'', ''.DMG'')"
  "splitext ''evidence.dmg'' = (''evidence'', ''.dmg'')"
  "splitext ''evidence.RAW'' = (''evidence'', ''.RAW'')"
  "splitext ''evidence.raw'' = (''evidence'', ''.raw'')"
  "splitext ''evidence.Raw'' = (''evidence'', ''.Raw'')"
  "splitext ''img1.raw'' = (''img1'', ''.raw'')"
  by code_simp+

text \<open>
  C10. For every query the demo handler's search returns a list of exactly one result; its
  name is \<^verbatim>\<open>demo_search_\<close> followed by the query and \<^verbatim>\<open>.txt\<close>, and its
  \<^verbatim>\<open>inode_item\<close> is the string 12348. The same holds through the handler object, and
  for the empty query.
\<close>

theorem demo_search_files_one_result:
  "(\<exists>r. DemoImageHandler_search_files q = [r]
        \<and> map_of r ''name'' = Some (PStr (''demo_search_'' @ q @ ''.txt''))
        \<and> map_of r ''inode_item'' = Some (PStr ''12348''))
   \<and> search_files (DemoImageHandler p) q = Inr (DemoImageHandler_search_files q)
   \<and> length (DemoImageHandler_search_files []) = 1
   \<and> map_of (DemoImageHandler_search_files [] ! 0) ''name'' = Some (PStr ''demo_search_.txt'')"
  by (simp add: DemoImageHandler_search_files_def DemoImageHandler_def)

text \<open>
  C7 (the code departs from the claim). The filter compares the extension with the members of
  \<open>ALLOWED_EXTENSIONS\<close> as they are spelled. The set lists \<^verbatim>\<open>.raw\<close> and
  \<^verbatim>\<open>.RAW\<close>, but \<^verbatim>\<open>.dmg\<close> only in lower case: \<^verbatim>\<open>evidence.DMG\<close> is refused
  while \<^verbatim>\<open>evidence.dmg\<close>, \<^verbatim>\<open>evidence.raw\<close> and \<^verbatim>\<open>evidence.RAW\<close> are accepted.
\<close>

theorem allowed_file_upper_case_dmg_refused:
  "allowed_file ''evidence.DMG'' = False
   \<and> allowed_file ''evidence.dmg'' = True
   \<and> allowed_file ''evidence.raw'' = True
   \<and> allowed_file ''evidence.RAW'' = True"
  by (simp add: allowed_file_def splitext_examples ALLOWED_EXTENSIONS_def)


lemma upload_try_import_error:
  assumes "ImageHandler e saved_path = Inl (Raise ImportError msg)"
  shows "upload_try e saved_path st =
    (Inr (Redirect (Browse (os_path_basename saved_path))),
     st\<lparr>flashes := flashes st @ [''Forensic libraries not installed. Running in demo mode. Error: '' @ msg],
        image_handlers := (image_handlers st)(os_path_basename saved_path \<mapsto> DemoImageHandler saved_path)\<rparr>)"
  using assms by (simp add: upload_try_def flash_def Let_def)

lemma upload_try_other_error:
  assumes "ImageHandler e saved_path = Inl ex" and "\<not> is_ImportError ex"
  shows "upload_try e saved_path st =
    (if is_Exception ex
     then (Inr (Redirect Index), st\<lparr>flashes := flashes st @ [''Error processing image: '' @ exc_str ex]\<rparr>)
     else (Inl ex, st))"
  using assms by (simp add: upload_try_def flash_def)

lemma upload_accepted:
  assumes "files ''image'' = Some fname" and "fname \<noteq> []" and "allowed_file fname"
    and "file_save e (os_path_join (UPLOAD_FOLDER e) (secure_filename e fname)) = None"
  shows "upload e files st = upload_try e (os_path_join (UPLOAD_FOLDER e) (secure_filename e fname)) st"
  using assms by (simp add: upload_def Let_def)

lemma find_last_absent: "c \<notin> set xs \<Longrightarrow> find_last c xs i r = r"
  by (induction xs arbitrary: i r) auto

lemma find_last_append:
  "find_last c (xs @ ys) i r = find_last c ys (i + length xs) (find_last c xs i r)"
  by (induction xs arbitrary: i r) simp_all

lemma rfind_last_occurrence: "c \<notin> set ys \<Longrightarrow> rfind (xs @ c # ys) c = int (length xs)"
  by (simp add: rfind_def find_last_append find_last_absent)

lemma rfind_absent: "c \<notin> set xs \<Longrightarrow> rfind xs c = - 1"
  by (simp add: rfind_def find_last_absent)

lemma basename_after_sep:
  "CHR ''/'' \<notin> set b \<Longrightarrow> os_path_basename (a @ CHR ''/'' # b) = b"
proof -
  assume "CHR ''/'' \<notin> set b"
  then have "rfind (a @ CHR ''/'' # b) (CHR ''/'') = int (length a)"
    by (rule rfind_last_occurrence)
  moreover have "nat (int (length a) + 1) = Suc (length a)" by simp
  ultimately show ?thesis by (simp add: os_path_basename_def)
qed

lemma basename_no_sep: "CHR ''/'' \<notin> set b \<Longrightarrow> os_path_basename b = b"
  by (simp add: os_path_basename_def rfind_absent)

lemma basename_join:
  assumes "CHR ''/'' \<notin> set b"
  shows "os_path_basename (os_path_join a b) = b"
proof -
  have nb: "\<not> (b \<noteq> [] \<and> hd b = CHR ''/'')" using assms by (cases b) auto
  show ?thesis
  proof (cases "a = []")
    case True
    with nb show ?thesis by (simp add: os_path_join_def basename_no_sep assms)
  next
    case False
    show ?thesis
    proof (cases "last a = CHR ''/''")
      case True
      with False obtain a' where a: "a = a' @ [CHR ''/'']"
        by (metis append_butlast_last_id)
      have "os_path_join a b = a @ b"
        using True False nb by (simp add: os_path_join_def)
      also have "\<dots> = a' @ CHR ''/'' # b" by (simp add: a)
      finally show ?thesis by (simp add: basename_after_sep assms)
    next
      case l: False
      with False nb show ?thesis
        by (auto simp: os_path_join_def basename_after_sep assms)
    qed
  qed
qed

text \<open>
  The token of an accepted upload is the sanitised file name itself, wherever the upload
  folder lies, as long as that name contains no separator.
\<close>

lemma upload_token_is_filename:
  assumes "files ''image'' = Some fname" and "fname \<noteq> []" and "allowed_file fname"
    and "saved = os_path_join (UPLOAD_FOLDER e) (secure_filename e fname)"
    and "file_save e saved = None"
    and "CHR ''/'' \<notin> set (secure_filename e fname)"
    and "ImageHandler e saved = Inr h \<or> ImageHandler e saved = Inl (Raise ImportError msg)"
  shows "fst (upload e files st) = Inr (Redirect (Browse (secure_filename e fname)))"
proof -
  have u: "upload e files st = upload_try e saved st"
    using upload_accepted [of files fname e st] assms by simp
  have b: "os_path_basename saved = secure_filename e fname"
    unfolding assms(4) by (rule basename_join [OF assms(6)])
  from assms(7) show ?thesis
  proof
    assume "ImageHandler e saved = Inr h"
    then show ?thesis unfolding u by (simp add: upload_try_def Let_def b)
  next
    assume "ImageHandler e saved = Inl (Raise ImportError msg)"
    then show ?thesis unfolding u by (simp add: upload_try_import_error b)
  qed
qed

text \<open>
  C2. Take an upload that passes the checks of the view and whose file is saved under
  \<open>saved\<close>. If the constructor \<^verbatim>\<open>ImageHandler\<close> raises an \<^verbatim>\<open>ImportError\<close>, the view
  flashes the demo-mode warning, enters the demo handler for \<open>saved\<close> under the base name of
  \<open>saved\<close> and redirects to the browse page of that token. If the constructor raises
  anything else, the table of handlers stays as it was and no browse redirect is issued: the
  view flashes the error and redirects to the index page, or the exception escapes when
  it is not an \<^verbatim>\<open>Exception\<close>.
\<close>

theorem upload_constructor_failure:
  assumes "files ''image'' = Some fname" and "fname \<noteq> []" and "allowed_file fname"
    and "saved = os_path_join (UPLOAD_FOLDER e) (secure_filename e fname)"
    and "file_save e saved = None"
  shows "(ImageHandler e saved = Inl (Raise ImportError msg) \<longrightarrow>
            upload e files st =
              (Inr (Redirect (Browse (os_path_basename saved))),
               st\<lparr>flashes := flashes st @ [''Forensic libraries not installed. Running in demo mode. Error: '' @ msg],
                  image_handlers := (image_handlers st)(os_path_basename saved \<mapsto> DemoImageHandler saved)\<rparr>))
       \<and> (ImageHandler e saved = Inl ex \<and> \<not> is_ImportError ex \<longrightarrow>
            image_handlers (snd (upload e files st)) = image_handlers st
            \<and> fst (upload e files st) = (if is_Exception ex then Inr (Redirect Index) else Inl ex)
            \<and> flashes (snd (upload e files st))
                = (if is_Exception ex then flashes st @ [''Error processing image: '' @ exc_str ex]
                   else flashes st))"
proof -
  have u: "upload e files st = upload_try e saved st"
    using upload_accepted [of files fname e st] assms by simp
  show ?thesis
  proof (intro conjI impI)
    assume "ImageHandler e saved = Inl (Raise ImportError msg)"
    then show "upload e files st =
              (Inr (Redirect (Browse (os_path_basename saved))),
               st\<lparr>flashes := flashes st @ [''Forensic libraries not installed. Running in demo mode. Error: '' @ msg],
                  image_handlers := (image_handlers st)(os_path_basename saved \<mapsto> DemoImageHandler saved)\<rparr>)"
      unfolding u by (rule upload_try_import_error)
  next
    assume a: "ImageHandler e saved = Inl ex \<and> \<not> is_ImportError ex"
    then have t: "upload_try e saved st =
      (if is_Exception ex
       then (Inr (Redirect Index), st\<lparr>flashes := flashes st @ [''Error processing image: '' @ exc_str ex]\<rparr>)
       else (Inl ex, st))"
      using upload_try_other_error [of e saved ex st] by simp
    show "image_handlers (snd (upload e files st)) = image_handlers st"
      unfolding u t by simp
    show "fst (upload e files st) = (if is_Exception ex then Inr (Redirect Index) else Inl ex)"
      unfolding u t by simp
    show "flashes (snd (upload e files st))
                = (if is_Exception ex then flashes st @ [''Error processing image: '' @ exc_str ex]
                   else flashes st)"
      unfolding u t by simp
  qed
qed

theorem upload_constructor_failure_witness:
  "upload (demo_env (Raise ImportError ''No module named pytsk3'')) [''image'' \<mapsto> ''img1.raw'']
      \<lparr>image_handlers = Map.empty, flashes = []\<rparr>
     = (Inr (Redirect (Browse ''img1.raw'')),
        \<lparr>image_handlers = [''img1.raw'' \<mapsto> DemoImageHandler ''/srv/webapp/uploads/img1.raw''],
          flashes = [''Forensic libraries not installed. Running in demo mode. Error: No module named pytsk3'']\<rparr>)
   \<and> upload (demo_env (Raise ValueError ''bad image'')) [''image'' \<mapsto> ''img1.raw'']
      \<lparr>image_handlers = Map.empty, flashes = []\<rparr>
     = (Inr (Redirect Index),
        \<lparr>image_handlers = Map.empty, flashes = [''Error processing image: bad image'']\<rparr>)"
proof -
  let ?st = "\<lparr>image_handlers = Map.empty, flashes = []\<rparr>"
  let ?files = "[''image'' \<mapsto> ''img1.raw'']"
  have a: "allowed_file ''img1.raw''"
    by (simp add: allowed_file_def splitext_examples ALLOWED_EXTENSIONS_def)
  have j: "os_path_join (UPLOAD_FOLDER (demo_env ex)) (secure_filename (demo_env ex) ''img1.raw'')
             = ''/srv/webapp/uploads/img1.raw''" for ex
    by (simp add: UPLOAD_FOLDER_def demo_env_def os_path_join_def)
  have b: "os_path_basename ''/srv/webapp/uploads/img1.raw'' = ''img1.raw''"
    by code_simp
  have s: "file_save (demo_env ex) ''/srv/webapp/uploads/img1.raw'' = None" for ex
    by (simp add: demo_env_def)
  have c: "ImageHandler (demo_env ex) ''/srv/webapp/uploads/img1.raw'' = Inl ex" for ex
    by (simp add: demo_env_def)
  have 1: "upload (demo_env (Raise ImportError ''No module named pytsk3'')) ?files ?st
     = (Inr (Redirect (Browse ''img1.raw'')),
        \<lparr>image_handlers = [''img1.raw'' \<mapsto> DemoImageHandler ''/srv/webapp/uploads/img1.raw''],
          flashes = [''Forensic libraries not installed. Running in demo mode. Error: No module named pytsk3'']\<rparr>)"
    using upload_constructor_failure [where files = ?files and fname = "''img1.raw''"
        and saved = "''/srv/webapp/uploads/img1.raw''"
        and e = "demo_env (Raise ImportError ''No module named pytsk3'')"
        and msg = "''No module named pytsk3''" and st = ?st]
      a j s c by (simp add: b)
  have n: "\<not> is_ImportError (Raise ValueError ''bad image'')" by simp
  from upload_constructor_failure [where files = ?files and fname = "''img1.raw''"
        and saved = "''/srv/webapp/uploads/img1.raw''"
        and e = "demo_env (Raise ValueError ''bad image'')"
        and ex = "Raise ValueError ''bad image''" and st = ?st]
      a j s c n
  have "image_handlers (snd (upload (demo_env (Raise ValueError ''bad image'')) ?files ?st)) = Map.empty"
    and "fst (upload (demo_env (Raise ValueError ''bad image'')) ?files ?st) = Inr (Redirect Index)"
    and "flashes (snd (upload (demo_env (Raise ValueError ''bad image'')) ?files ?st))
           = [''Error processing image: bad image'']"
    by simp_all
  then have 2: "upload (demo_env (Raise ValueError ''bad image'')) ?files ?st
     = (Inr (Redirect Index),
        \<lparr>image_handlers = Map.empty, flashes = [''Error processing image: bad image'']\<rparr>)"
    by (cases "upload (demo_env (Raise ValueError ''bad image'')) ?files ?st") auto
  show ?thesis using 1 2 by simp
qed

text \<open>
  C8. From the initial registry, registering \<^verbatim>\<open>/tmp/img1.raw\<close> returns E001. When
  that file is uploaded under its base name \<^verbatim>\<open>img1.raw\<close> (a name that
  \<^verbatim>\<open>secure_filename\<close> leaves as it is), the copy is saved, and the parsing backend is
  missing, the upload view issues the token \<^verbatim>\<open>img1.raw\<close>, the base name of the
  evidence path and of the saved copy, bound to the demo handler. The list view, asked with
  that token and start offset 0 (given or by default), then answers with the entries of the
  demo handler, one of which is named \<^verbatim>\<open>demo_file.txt\<close> and is not a directory.
\<close>

theorem scenario_img1:
  assumes "files ''image'' = Some (os_path_basename ''/tmp/img1.raw'')"
    and "secure_filename e ''img1.raw'' = ''img1.raw''"
    and "saved = os_path_join (UPLOAD_FOLDER e) ''img1.raw''"
    and "file_save e saved = None"
    and "ImageHandler e saved = Inl (Raise ImportError msg)"
  shows "fst (add_evidence ''/tmp/img1.raw'' init_registry) = ''E001''
    \<and> fst (upload e files st) = Inr (Redirect (Browse ''img1.raw''))
    \<and> os_path_basename ''/tmp/img1.raw'' = ''img1.raw''
    \<and> os_path_basename saved = ''img1.raw''
    \<and> image_handlers (snd (upload e files st)) ''img1.raw'' = Some (DemoImageHandler saved)
    \<and> api_list (image_handlers (snd (upload e files st)))
          [''token'' \<mapsto> ''img1.raw'', ''start_offset'' \<mapsto> ''0'']
        = Inr (Jsonify_entries (DemoImageHandler_get_directory_contents 0 None))
    \<and> api_list (image_handlers (snd (upload e files st))) [''token'' \<mapsto> ''img1.raw'']
        = Inr (Jsonify_entries (DemoImageHandler_get_directory_contents 0 None))
    \<and> (\<exists>en. en \<in> set (DemoImageHandler_get_directory_contents 0 None)
           \<and> map_of en ''name'' = Some (PStr ''demo_file.txt'')
           \<and> map_of en ''is_directory'' = Some (PBool False))"
proof -
  have id: "fst (add_evidence ''/tmp/img1.raw'' init_registry) = ''E001''"
    by (simp add: add_evidence_def init_registry_def format_03d_1 Let_def)
  have f: "files ''image'' = Some ''img1.raw''"
    using assms(1) by (simp add: basename_tmp_img1)
  have a: "allowed_file ''img1.raw''"
    by (simp add: allowed_file_def splitext_examples ALLOWED_EXTENSIONS_def)
  have sv: "saved = os_path_join (UPLOAD_FOLDER e) (secure_filename e ''img1.raw'')"
    using assms(2,3) by simp
  have b: "os_path_basename saved = ''img1.raw''"
    unfolding assms(3) by (rule basename_join) simp
  have u: "upload e files st = upload_try e saved st"
    using upload_accepted [of files "''img1.raw''" e st] f a sv assms(4) by simp
  note t = upload_try_import_error [OF assms(5), of st, unfolded b]
  have r: "fst (upload e files st) = Inr (Redirect (Browse ''img1.raw''))"
    unfolding u t by simp
  have h: "image_handlers (snd (upload e files st)) ''img1.raw'' = Some (DemoImageHandler saved)"
    unfolding u t by simp
  have l1: "api_list (image_handlers (snd (upload e files st)))
          [''token'' \<mapsto> ''img1.raw'', ''start_offset'' \<mapsto> ''0'']
        = Inr (Jsonify_entries (DemoImageHandler_get_directory_contents 0 None))"
    by (simp add: api_list_def args_get_def py_int_0 handlers_get_def h DemoImageHandler_def)
  have l2: "api_list (image_handlers (snd (upload e files st))) [''token'' \<mapsto> ''img1.raw'']
        = Inr (Jsonify_entries (DemoImageHandler_get_directory_contents 0 None))"
    by (simp add: api_list_def args_get_def py_int_0 handlers_get_def h DemoImageHandler_def)
  have en: "\<exists>en. en \<in> set (DemoImageHandler_get_directory_contents 0 None)
                \<and> map_of en ''name'' = Some (PStr ''demo_file.txt'')
                \<and> map_of en ''is_directory'' = Some (PBool False)"
    unfolding DemoImageHandler_get_directory_contents_def
    by (rule exI [of _ "[(''name'', PStr ''demo_file.txt''),
         (''is_directory'', PBool False),
         (''inode_number'', PInt 12345),
         (''size'', PStr ''1.2 KB''),
         (''accessed'', PStr ''2024-01-01 12:00:00 UTC''),
         (''modified'', PStr ''2024-01-01 12:00:00 UTC''),
         (''created'', PStr ''2024-01-01 12:00:00 UTC''),
         (''changed'', PStr ''2024-01-01 12:00:00 UTC'')]"]) simp
  from id r basename_tmp_img1 b h l1 l2 en show ?thesis by (intro conjI)
qed

theorem scenario_img1_witness:
  "fst (add_evidence ''/tmp/img1.raw'' init_registry) = ''E001''
   \<and> fst (upload (demo_env (Raise ImportError ''No module named pytsk3'')) [''image'' \<mapsto> ''img1.raw'']
            \<lparr>image_handlers = Map.empty, flashes = []\<rparr>) = Inr (Redirect (Browse ''img1.raw''))
   \<and> image_handlers (snd (upload (demo_env (Raise ImportError ''No module named pytsk3''))
            [''image'' \<mapsto> ''img1.raw''] \<lparr>image_handlers = Map.empty, flashes = []\<rparr>)) ''img1.raw''
         = Some (DemoImageHandler ''/srv/webapp/uploads/img1.raw'')
   \<and> api_list (image_handlers (snd (upload (demo_env (Raise ImportError ''No module named pytsk3''))
            [''image'' \<mapsto> ''img1.raw''] \<lparr>image_handlers = Map.empty, flashes = []\<rparr>)))
          [''token'' \<mapsto> ''img1.raw'', ''start_offset'' \<mapsto> ''0'']
        = Inr (Jsonify_entries (DemoImageHandler_get_directory_contents 0 None))
   \<and> api_list (image_handlers (snd (upload (demo_env (Raise ImportError ''No module named pytsk3''))
            [''image'' \<mapsto> ''img1.raw''] \<lparr>image_handlers = Map.empty, flashes = []\<rparr>)))
          [''token'' \<mapsto> ''img1.raw'']
        = Inr (Jsonify_entries (DemoImageHandler_get_directory_contents 0 None))
   \<and> (\<exists>en. en \<in> set (DemoImageHandler_get_directory_contents 0 None)
           \<and> map_of en ''name'' = Some (PStr ''demo_file.txt'')
           \<and> map_of en ''is_directory'' = Some (PBool False))"
proof -
  let ?e = "demo_env (Raise ImportError ''No module named pytsk3'')"
  let ?files = "[''image'' \<mapsto> ''img1.raw'']"
  have f: "?files ''image'' = Some (os_path_basename ''/tmp/img1.raw'')"
    by (simp add: basename_tmp_img1)
  have sf: "secure_filename ?e ''img1.raw'' = ''img1.raw''"
    by (simp add: demo_env_def)
  have j: "''/srv/webapp/uploads/img1.raw'' = os_path_join (UPLOAD_FOLDER ?e) ''img1.raw''"
    by (simp add: UPLOAD_FOLDER_def demo_env_def os_path_join_def)
  have s: "file_save ?e ''/srv/webapp/uploads/img1.raw'' = None"
    by (simp add: demo_env_def)
  have c: "ImageHandler ?e ''/srv/webapp/uploads/img1.raw''
             = Inl (Raise ImportError ''No module named pytsk3'')"
    by (simp add: demo_env_def)
  from scenario_img1 [where files = ?files and e = ?e and saved = "''/srv/webapp/uploads/img1.raw''"
      and msg = "''No module named pytsk3''" and st = "\<lparr>image_handlers = Map.empty, flashes = []\<rparr>",
      OF f sf j s c]
  show ?thesis by (elim conjE) (intro conjI)
qed

lemma length_byte_hex: "length (byte_hex b) = 2"
  by (simp add: byte_hex_def)

lemma length_bytes_hex: "length (bytes_hex bs) = 2 * length bs"
  by (induction bs) (simp_all add: bytes_hex_def length_byte_hex)

lemma int_strip_id:
  assumes "s \<noteq> []" and "\<not> is_int_space (hd s)" and "\<not> is_int_space (last s)"
  shows "int_strip s = s"
proof -
  have 1: "dropWhile is_int_space s = s" using assms(1,2) by (cases s) simp_all
  from assms(1) obtain xs x where s: "s = xs @ [x]" by (cases s rule: rev_cases) auto
  then have "\<not> is_int_space x" using assms(3) by simp
  then have 2: "dropWhile is_int_space (rev s) = rev s" by (simp add: s)
  show ?thesis by (simp add: int_strip_def 1 2)
qed

lemma digit_not_int_space: "is_digit c \<Longrightarrow> \<not> is_int_space c"
  by (auto simp: is_digit_def is_int_space_def)

lemma digit_not_sign: "is_digit c \<Longrightarrow> c \<noteq> CHR ''-'' \<and> c \<noteq> CHR ''+''"
  by (auto simp: is_digit_def)

lemma sign_not_int_space: "\<not> is_int_space (CHR ''-'')" "\<not> is_int_space (CHR ''+'')"
  by (simp_all add: is_int_space_def)

lemma int_literal_digits_all_digits:
  "list_all is_digit ds \<Longrightarrow> ds \<noteq> [] \<Longrightarrow>
   int_literal_digits p ds acc = Some (foldl (\<lambda>a c. 10 * a + digit_val c) acc ds)"
proof (induction ds arbitrary: p acc)
  case Nil
  then show ?case by simp
next
  case (Cons c ds)
  then have c: "is_digit c" and all: "list_all is_digit ds" by simp_all
  show ?case
  proof (cases "ds = []")
    case True
    with c show ?thesis by simp
  next
    case False
    from Cons.IH [OF all False, of True "10 * acc + digit_val c"] c show ?thesis by simp
  qed
qed

text \<open>A plain decimal literal is converted to the number it denotes.\<close>

lemma py_int_decimal_literal:
  assumes "is_decimal_literal s"
  shows "py_int s = Inr (decimal_literal_value s)"
proof -
  define ds where "ds = unsigned_part s"
  have ds: "ds \<noteq> []" "list_all is_digit ds" "length ds \<le> 4300"
    using assms by (simp_all add: is_decimal_literal_def ds_def)
  have ne: "s \<noteq> []" using ds(1) by (auto simp: ds_def unsigned_part_def split: if_splits)
  have hd_ok: "\<not> is_int_space (hd s)"
  proof (cases "hd s = CHR ''-'' \<or> hd s = CHR ''+''")
    case True
    then show ?thesis using sign_not_int_space by auto
  next
    case False
    then have "ds = s" by (simp add: ds_def unsigned_part_def)
    with ds ne have "is_digit (hd s)" by (cases s) simp_all
    then show ?thesis by (rule digit_not_int_space)
  qed
  have "last s = last ds"
    using ds(1) ne by (auto simp: ds_def unsigned_part_def last_tl split: if_splits)
  moreover have "is_digit (last ds)" using ds(1,2) by (simp add: list_all_iff)
  ultimately have last_ok: "\<not> is_int_space (last s)" by (simp add: digit_not_int_space)
  have st: "int_strip s = s" by (rule int_strip_id [OF ne hd_ok last_ok])
  have body: "(if s \<noteq> [] \<and> (hd s = CHR ''-'' \<or> hd s = CHR ''+'') then tl s else s) = ds"
    by (simp add: ds_def unsigned_part_def)
  have val: "int_literal_digits False ds 0 = Some (dec_value ds)"
    using int_literal_digits_all_digits [OF ds(2,1)] by (simp add: dec_value_def)
  have cnt: "length (filter is_digit ds) = length ds"
    using ds(2) by (simp add: list_all_iff)
  have "py_int s =
      (case int_literal_digits False ds 0 of
         None \<Rightarrow> Inl (Raise ValueError [])
       | Some n \<Rightarrow>
           if int_max_str_digits < length (filter is_digit ds) then Inl (Raise ValueError [])
           else Inr (if s \<noteq> [] \<and> hd s = CHR ''-'' then - int n else int n))"
    by (simp only: py_int_def Let_def st body)
  also have "\<dots> = Inr (if s \<noteq> [] \<and> hd s = CHR ''-'' then - int (dec_value ds) else int (dec_value ds))"
    using ds(3) by (simp add: val cnt int_max_str_digits_def)
  also have "\<dots> = Inr (decimal_literal_value s)"
    by (simp add: decimal_literal_value_def ds_def)
  finally show ?thesis .
qed

text \<open>
  C1 (as the code has it). Let \<open>t\<close> be a token that is not a key of the table of handlers.
  The search view answers a request bearing \<open>t\<close> with the invalid-token error whatever the
  query is, and so does the carve view whenever the request body is a JSON object. The
  list and file views answer a request bearing \<open>t\<close> with the invalid-token error whenever
  the conversions \<^verbatim>\<open>int\<close> of their numeric parameters succeed, that is of
  \<^verbatim>\<open>start_offset\<close> (default 0) and of \<^verbatim>\<open>inode\<close> (optional for the list view,
  required for the file view); in particular whenever each of these parameters is an
  optional sign followed by one to 4300 decimal digits.
\<close>

theorem invalid_token_rejected:
  assumes "hs t = None"
  shows "(args ''token'' = Some t \<longrightarrow> search hs args = Inr (Jsonify_error ''invalid token'' 400))
    \<and> (json_get (PDict kvs) ''token'' PNone = Inr (PStr t) \<longrightarrow>
          api_carve hs (Some (PDict kvs)) = Inr (Jsonify_error ''invalid token'' 400))
    \<and> (args ''token'' = Some t \<and> py_int (args_get args ''start_offset'' ''0'') = Inr so
          \<and> (args ''inode'' = None \<or> (\<exists>n. py_int_opt (args ''inode'') = Inr n)) \<longrightarrow>
          api_list hs args = Inr (Jsonify_error ''invalid token'' 400))
    \<and> (args ''token'' = Some t \<and> py_int (args_get args ''start_offset'' ''0'') = Inr so
          \<and> py_int_opt (args ''inode'') = Inr n \<longrightarrow>
          api_file hs args = Inr (Jsonify_error ''invalid token'' 400))
    \<and> (args ''token'' = Some t \<and> is_decimal_literal (args_get args ''start_offset'' ''0'')
          \<and> (args ''inode'' = None \<or> (\<exists>v. args ''inode'' = Some v \<and> is_decimal_literal v)) \<longrightarrow>
          api_list hs args = Inr (Jsonify_error ''invalid token'' 400))
    \<and> (args ''token'' = Some t \<and> is_decimal_literal (args_get args ''start_offset'' ''0'')
          \<and> (\<exists>v. args ''inode'' = Some v \<and> is_decimal_literal v) \<longrightarrow>
          api_file hs args = Inr (Jsonify_error ''invalid token'' 400))"
proof -
  have s: "search hs args = Inr (Jsonify_error ''invalid token'' 400)"
    if "args ''token'' = Some t"
    using that assms by (simp add: search_def handlers_get_def Let_def)
  have c: "api_carve hs (Some (PDict kvs)) = Inr (Jsonify_error ''invalid token'' 400)"
    if "json_get (PDict kvs) ''token'' PNone = Inr (PStr t)"
    using that assms by (simp add: api_carve_def handlers_get_val_def json_get_def)
  have l: "api_list hs args = Inr (Jsonify_error ''invalid token'' 400)"
    if "args ''token'' = Some t" and "py_int (args_get args ''start_offset'' ''0'') = Inr x"
      and "args ''inode'' = None \<or> (\<exists>n. py_int_opt (args ''inode'') = Inr n)" for x
    using that assms
    by (auto simp: api_list_def handlers_get_def py_int_opt_def Let_def split: option.splits)
  have f: "api_file hs args = Inr (Jsonify_error ''invalid token'' 400)"
    if "args ''token'' = Some t" and "py_int (args_get args ''start_offset'' ''0'') = Inr x"
      and "py_int_opt (args ''inode'') = Inr y" for x y
    using that assms by (simp add: api_file_def handlers_get_def Let_def)
  have ll: "api_list hs args = Inr (Jsonify_error ''invalid token'' 400)"
    if a: "args ''token'' = Some t \<and> is_decimal_literal (args_get args ''start_offset'' ''0'')
          \<and> (args ''inode'' = None \<or> (\<exists>v. args ''inode'' = Some v \<and> is_decimal_literal v))"
  proof -
    from a have so: "py_int (args_get args ''start_offset'' ''0'')
                       = Inr (decimal_literal_value (args_get args ''start_offset'' ''0''))"
      by (simp add: py_int_decimal_literal)
    from a have "args ''inode'' = None \<or> (\<exists>n. py_int_opt (args ''inode'') = Inr n)"
      by (auto simp: py_int_opt_def py_int_decimal_literal)
    with a so show ?thesis using l by blast
  qed
  have ff: "api_file hs args = Inr (Jsonify_error ''invalid token'' 400)"
    if a: "args ''token'' = Some t \<and> is_decimal_literal (args_get args ''start_offset'' ''0'')
          \<and> (\<exists>v. args ''inode'' = Some v \<and> is_decimal_literal v)"
  proof -
    from a have so: "py_int (args_get args ''start_offset'' ''0'')
                       = Inr (decimal_literal_value (args_get args ''start_offset'' ''0''))"
      by (simp add: py_int_decimal_literal)
    from a obtain v where "args ''inode'' = Some v" "is_decimal_literal v" by blast
    then have "py_int_opt (args ''inode'') = Inr (decimal_literal_value v)"
      by (simp add: py_int_opt_def py_int_decimal_literal)
    with a so show ?thesis using f by blast
  qed
  show ?thesis
  proof (intro conjI impI)
    assume "args ''token'' = Some t"
    then show "search hs args = Inr (Jsonify_error ''invalid token'' 400)" by (rule s)
  next
    assume "json_get (PDict kvs) ''token'' PNone = Inr (PStr t)"
    then show "api_carve hs (Some (PDict kvs)) = Inr (Jsonify_error ''invalid token'' 400)"
      by (rule c)
  next
    assume "args ''token'' = Some t \<and> py_int (args_get args ''start_offset'' ''0'') = Inr so
          \<and> (args ''inode'' = None \<or> (\<exists>n. py_int_opt (args ''inode'') = Inr n))"
    then show "api_list hs args = Inr (Jsonify_error ''invalid token'' 400)"
      using l by blast
  next
    assume "args ''token'' = Some t \<and> py_int (args_get args ''start_offset'' ''0'') = Inr so
          \<and> py_int_opt (args ''inode'') = Inr n"
    then show "api_file hs args = Inr (Jsonify_error ''invalid token'' 400)"
      using f by blast
  next
    assume "args ''token'' = Some t \<and> is_decimal_literal (args_get args ''start_offset'' ''0'')
          \<and> (args ''inode'' = None \<or> (\<exists>v. args ''inode'' = Some v \<and> is_decimal_literal v))"
    then show "api_list hs args = Inr (Jsonify_error ''invalid token'' 400)" by (rule ll)
  next
    assume "args ''token'' = Some t \<and> is_decimal_literal (args_get args ''start_offset'' ''0'')
          \<and> (\<exists>v. args ''inode'' = Some v \<and> is_decimal_literal v)"
    then show "api_file hs args = Inr (Jsonify_error ''invalid token'' 400)" by (rule ff)
  qed
qed

theorem invalid_token_rejected_witness:
  "search Map.empty [''token'' \<mapsto> ''nosuch'', ''inode'' \<mapsto> ''5'', ''start_offset'' \<mapsto> ''-12'']
     = Inr (Jsonify_error ''invalid token'' 400)
   \<and> api_carve Map.empty (Some (PDict [(''token'', PStr ''nosuch''), (''type'', PStr ''jpg'')]))
       = Inr (Jsonify_error ''invalid token'' 400)
   \<and> api_list Map.empty [''token'' \<mapsto> ''nosuch'', ''inode'' \<mapsto> ''5'', ''start_offset'' \<mapsto> ''-12'']
       = Inr (Jsonify_error ''invalid token'' 400)
   \<and> api_file Map.empty [''token'' \<mapsto> ''nosuch'', ''inode'' \<mapsto> ''5'', ''start_offset'' \<mapsto> ''-12'']
       = Inr (Jsonify_error ''invalid token'' 400)
   \<and> py_int '' 1_000 '' = Inr 1000
   \<and> api_list Map.empty [''token'' \<mapsto> ''nosuch'', ''start_offset'' \<mapsto> '' 1_000 '']
       = Inr (Jsonify_error ''invalid token'' 400)
   \<and> api_file Map.empty [''token'' \<mapsto> ''nosuch'', ''inode'' \<mapsto> ''5'', ''start_offset'' \<mapsto> '' 1_000 '']
       = Inr (Jsonify_error ''invalid token'' 400)"
proof -
  let ?hs = "Map.empty :: string \<rightharpoonup> handler"
  let ?args = "[''token'' \<mapsto> ''nosuch'', ''inode'' \<mapsto> ''5'', ''start_offset'' \<mapsto> ''-12'']"
  let ?a1 = "[''token'' \<mapsto> ''nosuch'', ''start_offset'' \<mapsto> '' 1_000 '']"
  let ?a2 = "[''token'' \<mapsto> ''nosuch'', ''inode'' \<mapsto> ''5'', ''start_offset'' \<mapsto> '' 1_000 '']"
  have h: "?hs ''nosuch'' = None" by simp
  have tk: "?args ''token'' = Some ''nosuch''" by simp
  have d1: "is_decimal_literal ''-12''" and d2: "is_decimal_literal ''5''"
    by (simp_all add: is_decimal_literal_def unsigned_part_def is_digit_def)
  have so: "is_decimal_literal (args_get ?args ''start_offset'' ''0'')"
    by (simp add: args_get_def d1)
  have ino: "\<exists>v. ?args ''inode'' = Some v \<and> is_decimal_literal v"
    by (simp add: d2)
  have js: "json_get (PDict [(''token'', PStr ''nosuch''), (''type'', PStr ''jpg'')]) ''token'' PNone
              = Inr (PStr ''nosuch'')"
    by (simp add: json_get_def)
  have p: "py_int '' 1_000 '' = Inr 1000" by code_simp
  have p5: "py_int_opt (Some ''5'') = Inr 5" by (simp add: py_int_opt_def py_int_5)
  note lit = invalid_token_rejected [OF h, where args = ?args
      and kvs = "[(''token'', PStr ''nosuch''), (''type'', PStr ''jpg'')]"]
  note g1 = invalid_token_rejected [OF h, where args = ?a1 and so = 1000]
  note g2 = invalid_token_rejected [OF h, where args = ?a2 and so = 1000 and n = 5]
  have "search ?hs ?args = Inr (Jsonify_error ''invalid token'' 400)"
    using lit tk by blast
  moreover have "api_carve ?hs (Some (PDict [(''token'', PStr ''nosuch''), (''type'', PStr ''jpg'')]))
       = Inr (Jsonify_error ''invalid token'' 400)"
    using lit js by blast
  moreover have "api_list ?hs ?args = Inr (Jsonify_error ''invalid token'' 400)"
    using lit tk so ino by blast
  moreover have "api_file ?hs ?args = Inr (Jsonify_error ''invalid token'' 400)"
    using lit tk so ino by blast
  moreover have "api_list ?hs ?a1 = Inr (Jsonify_error ''invalid token'' 400)"
  proof -
    have "?a1 ''token'' = Some ''nosuch'' \<and> py_int (args_get ?a1 ''start_offset'' ''0'') = Inr 1000
          \<and> (?a1 ''inode'' = None \<or> (\<exists>n. py_int_opt (?a1 ''inode'') = Inr n))"
      by (simp add: args_get_def p)
    with g1 show ?thesis by blast
  qed
  moreover have "api_file ?hs ?a2 = Inr (Jsonify_error ''invalid token'' 400)"
  proof -
    have "?a2 ''token'' = Some ''nosuch'' \<and> py_int (args_get ?a2 ''start_offset'' ''0'') = Inr 1000
          \<and> py_int_opt (?a2 ''inode'') = Inr 5"
      by (simp add: args_get_def p p5)
    with g2 show ?thesis by blast
  qed
  ultimately show ?thesis using p by simp
qed

text \<open>
  The claim as it is worded fails: with an empty table the token \<^verbatim>\<open>nosuch\<close> is not a
  key, yet the file view, asked without an \<^verbatim>\<open>inode\<close> parameter, raises
  \<^verbatim>\<open>TypeError\<close>, and the list view, asked with \<^verbatim>\<open>start_offset=abc\<close>, raises
  \<^verbatim>\<open>ValueError\<close>; neither answers with the invalid-token error.
\<close>

theorem invalid_token_counterexample:
  "(Map.empty :: string \<rightharpoonup> handler) ''nosuch'' = None
   \<and> api_file Map.empty [''token'' \<mapsto> ''nosuch''] = Inl (Raise TypeError [])
   \<and> api_file Map.empty [''token'' \<mapsto> ''nosuch''] \<noteq> Inr (Jsonify_error ''invalid token'' 400)
   \<and> api_list Map.empty [''token'' \<mapsto> ''nosuch'', ''start_offset'' \<mapsto> ''abc''] = Inl (Raise ValueError [])
   \<and> api_list Map.empty [''token'' \<mapsto> ''nosuch'', ''start_offset'' \<mapsto> ''abc'']
        \<noteq> Inr (Jsonify_error ''invalid token'' 400)"
  by (simp add: api_file_def api_list_def py_int_opt_def args_get_def py_int_abc Let_def)

text \<open>
  C3. When the handler of the token returns a byte string for the inode, the file view
  renders it as follows. If the whole byte string decodes as strict UTF-8, the page gets
  the decoded text and \<^verbatim>\<open>is_text\<close> true. If it does not, the page gets
  \<^verbatim>\<open>is_text\<close> false and the hexadecimal digits of the first 1000 bytes: two digits for
  each of \<open>min 1000 (length content)\<close> bytes, which is the whole content when it has at
  most 1000 bytes. In both cases the state is untouched and the size shown is the length
  of the whole content. Decoding succeeds exactly on the UTF-8 encodings of sequences of
  Unicode scalar values, so the first case is that of a content that encodes such a
  sequence, and the second that of a content that encodes none.
\<close>

theorem view_file_classification:
  assumes "py_int (args_get args ''start_offset'' ''0'') = Inr start_offset"
    and "image_handlers st token = Some h"
    and "get_file_content h inode start_offset = Inr (Some content, meta)"
  shows "(utf8_decode content = Some decoded \<longrightarrow>
            view_file st token inode args
              = (Inr (Render_view_file token inode decoded True (length content)), st))
       \<and> (utf8_decode content = None \<longrightarrow>
            view_file st token inode args
              = (Inr (Render_view_file token inode
                        (code_points (bytes_hex (take 1000 content))) False (length content)), st)
            \<and> length (code_points (bytes_hex (take 1000 content))) = 2 * min 1000 (length content)
            \<and> (length content \<le> 1000 \<longrightarrow>
                 code_points (bytes_hex (take 1000 content)) = code_points (bytes_hex content)))
       \<and> (list_all is_scalar_value cps \<and> content = utf8_encode cps \<longrightarrow>
            view_file st token inode args
              = (Inr (Render_view_file token inode cps True (length content)), st))
       \<and> ((\<forall>ds. list_all is_scalar_value ds \<longrightarrow> utf8_encode ds \<noteq> content) \<longrightarrow>
            view_file st token inode args
              = (Inr (Render_view_file token inode
                        (code_points (bytes_hex (take 1000 content))) False (length content)), st))"
proof -
  have as_text: "view_file st token inode args
              = (Inr (Render_view_file token inode d True (length content)), st)"
    if "utf8_decode content = Some d" for d
    using assms that by (simp add: view_file_def)
  have as_hex: "view_file st token inode args
              = (Inr (Render_view_file token inode
                        (code_points (bytes_hex (take 1000 content))) False (length content)), st)"
    if "utf8_decode content = None"
    using assms that by (simp add: view_file_def)
  have len: "length (code_points (bytes_hex (take 1000 content))) = 2 * min 1000 (length content)"
    by (simp add: code_points_def length_bytes_hex min_def)
  have enc: "utf8_decode content = Some cps"
    if "list_all is_scalar_value cps \<and> content = utf8_encode cps"
    using that utf8_decode_encode by blast
  have none: "utf8_decode content = None"
    if "\<forall>ds. list_all is_scalar_value ds \<longrightarrow> utf8_encode ds \<noteq> content"
  proof (cases "utf8_decode content")
    case None
    then show ?thesis .
  next
    case (Some ds)
    then have "list_all is_scalar_value ds \<and> utf8_encode ds = content"
      by (rule utf8_encode_decode)
    with that show ?thesis by blast
  qed
  show ?thesis
  proof (intro conjI impI)
    assume "utf8_decode content = Some decoded"
    then show "view_file st token inode args
              = (Inr (Render_view_file token inode decoded True (length content)), st)"
      by (rule as_text)
  next
    assume "utf8_decode content = None"
    then show "view_file st token inode args
              = (Inr (Render_view_file token inode
                        (code_points (bytes_hex (take 1000 content))) False (length content)), st)"
      by (rule as_hex)
  next
    show "length (code_points (bytes_hex (take 1000 content))) = 2 * min 1000 (length content)"
      by (rule len)
  next
    assume "length content \<le> 1000"
    then show "code_points (bytes_hex (take 1000 content)) = code_points (bytes_hex content)"
      by simp
  next
    assume "list_all is_scalar_value cps \<and> content = utf8_encode cps"
    then have "utf8_decode content = Some cps" by (rule enc)
    then show "view_file st token inode args
              = (Inr (Render_view_file token inode cps True (length content)), st)"
      by (rule as_text)
  next
    assume "\<forall>ds. list_all is_scalar_value ds \<longrightarrow> utf8_encode ds \<noteq> content"
    then have "utf8_decode content = None" by (rule none)
    then show "view_file st token inode args
              = (Inr (Render_view_file token inode
                        (code_points (bytes_hex (take 1000 content))) False (length content)), st)"
      by (rule as_hex)
  qed
qed

theorem view_file_classification_witness:
  "view_file \<lparr>image_handlers = [''img1.raw'' \<mapsto> DemoImageHandler ''/tmp/img1.raw''], flashes = []\<rparr>
      ''img1.raw'' 12345 Map.empty
     = (Inr (Render_view_file ''img1.raw'' 12345
               (code_points ''This is a demo file content for testing purposes.'') True 49),
        \<lparr>image_handlers = [''img1.raw'' \<mapsto> DemoImageHandler ''/tmp/img1.raw''], flashes = []\<rparr>)
   \<and> view_file \<lparr>image_handlers = [''img1.raw'' \<mapsto> binary_handler], flashes = []\<rparr>
      ''img1.raw'' 12345 Map.empty
     = (Inr (Render_view_file ''img1.raw'' 12345 (code_points ''89504e47'') False 4),
        \<lparr>image_handlers = [''img1.raw'' \<mapsto> binary_handler], flashes = []\<rparr>)"
proof -
  let ?st1 = "\<lparr>image_handlers = [''img1.raw'' \<mapsto> DemoImageHandler ''/tmp/img1.raw''], flashes = []\<rparr>"
  let ?st2 = "\<lparr>image_handlers = [''img1.raw'' \<mapsto> binary_handler], flashes = []\<rparr>"
  let ?demo = "bytes_of ''This is a demo file content for testing purposes.''"
  have so: "py_int (args_get Map.empty ''start_offset'' ''0'') = Inr 0"
    by (simp add: args_get_def py_int_0)
  have h1: "image_handlers ?st1 ''img1.raw'' = Some (DemoImageHandler ''/tmp/img1.raw'')" by simp
  have h2: "image_handlers ?st2 ''img1.raw'' = Some binary_handler" by simp
  have c1: "get_file_content (DemoImageHandler ''/tmp/img1.raw'') 12345 0 = Inr (Some ?demo, None)"
    by (simp add: DemoImageHandler_def DemoImageHandler_get_file_content_def)
  have c2: "get_file_content binary_handler 12345 0 = Inr (Some [0x89, 0x50, 0x4E, 0x47], None)"
    by (simp add: binary_handler_def)
  have d1: "utf8_decode ?demo = Some (code_points ''This is a demo file content for testing purposes.'')"
    by code_simp
  have d2: "utf8_decode [0x89, 0x50, 0x4E, 0x47] = None"
    by code_simp
  have l1: "length ?demo = 49" by (simp add: bytes_of_def)
  have x2: "bytes_hex (take 1000 [0x89, 0x50, 0x4E, 0x47]) = ''89504e47''"
    by code_simp
  from view_file_classification [OF so h1 c1,
      where decoded = "code_points ''This is a demo file content for testing purposes.''"] d1 l1
  have "view_file ?st1 ''img1.raw'' 12345 Map.empty
     = (Inr (Render_view_file ''img1.raw'' 12345
               (code_points ''This is a demo file content for testing purposes.'') True 49), ?st1)"
    by simp
  moreover from view_file_classification [OF so h2 c2] d2 x2
  have "view_file ?st2 ''img1.raw'' 12345 Map.empty
     = (Inr (Render_view_file ''img1.raw'' 12345 (code_points ''89504e47'') False 4), ?st2)"
    by simp
  ultimately show ?thesis by simp
qed

end
